theory Spec2Isabelle
  imports Complex_Main "HOL-Library.Log_Nat"
begin

section \<open>Call entity: data model\<close>

text \<open>
  The model follows \<open>CallEntity\<close> (calling/entities/CallEntity.js). A call entity is a
  record of its fields; every method takes the record and returns the updated record.
  Knockout observables are plain fields; a subscription is the function that the setter
  runs after a write that changes the value. Calls into collaborators that are not part
  of the entity (calling repository, media stream handler, telemetry, the \<open>amplify\<close>
  bus) are appended to the field \<open>effects\<close>, in program order. The timers that the
  entity has registered with \<open>window.setTimeout\<close> and that have not been cleared are the
  field \<open>timers\<close>. Calls to the logger are left out, and so is the subscription that
  reports the number of participants to telemetry.
\<close>

datatype CALL_STATE =
  UNKNOWN | INCOMING | OUTGOING | CONNECTING | ONGOING | DISCONNECTING | REJECTED | ENDED

datatype TERMINATION_REASON =
  SELF_USER | GROUP_CHECK | MISSED | COMPLETED | OTHER_USER | TIMEOUT | CONNECTION_DROP
  | MEMBER_LEAVE

datatype MediaType = MEDIA_NONE | AUDIO | AUDIO_VIDEO | VIDEO | SCREEN

datatype AvailabilityType = AWAY | NOT_AWAY

datatype AudioType = INCOMING_CALL | OUTGOING_CALL | TALK_LATER | CALL_DROP | NETWORK_INTERRUPTION

datatype CALL_MESSAGE_TYPE =
  GROUP_START | GROUP_LEAVE | MSG_GROUP_CHECK | HANGUP | CANCEL | PROP_SYNC | REJECT

datatype EVENT_SOURCE = INJECTED | WEB_SOCKET

datatype CallErrorType = NOT_FOUND | WRONG_STATE | WRONG_SENDER

datatype error = CallError CallErrorType string | Error string

text \<open>
  \<open>CALL_STATE_GROUP\<close> (enum/CallStateGroup) is not among the sources; the two groups the
  modelled methods read are parameters.
\<close>

record CALL_STATE_GROUP =
  CAN_CONNECT :: "CALL_STATE list"
  UNANSWERED :: "CALL_STATE list"

text \<open>
  Payloads are kept as the builder calls that made them (\<open>CallMessageBuilder\<close> is not
  among the sources). A call message carries type, response flag, session id, client id,
  user id and payload. \<open>None\<close> is JavaScript's \<open>undefined\<close>.
\<close>

datatype payload =
  CreatePayload string string "string option" "string option"
  | CreatePropSync payload "bool option"

record CallMessageEntity =
  cm_type :: CALL_MESSAGE_TYPE
  cm_response :: bool
  cm_sessionId :: "string option"
  cm_clientId :: "string option"
  cm_userId :: "string option"
  cm_properties :: "payload option"

record User =
  user_id :: string
  user_name :: string
  joaatHash :: int

record FlowEntity =
  remoteUserId :: string
  remoteClientId :: "string option"

text \<open>
  \<open>ParticipantEntity\<close> is not among the sources. The fields are the ones that
  \<open>CallEntity\<close> reads and writes: \<open>id\<close>, \<open>user\<close>, \<open>sessionId\<close>,
  \<open>activeState.screenSend\<close>, \<open>activeState.videoSend\<close>, \<open>panning\<close>, \<open>flowEntity\<close>, and
  the client id that \<open>verifyClientId\<close> binds. A JavaScript number is the rational it
  denotes.
\<close>

record ParticipantEntity =
  p_id :: string
  p_user :: User
  p_clientId :: "string option"
  p_sessionId :: "string option"
  screenSend :: bool
  videoSend :: bool
  panning :: rat
  flowEntity :: "FlowEntity option"

datatype timer_callback =
  OnSendGroupCheckTimeout nat | OnVerifyGroupCheckTimeout | OnStateTimeout bool

datatype effect =
  FlowClearTimeouts FlowEntity
  | InjectDeactivateEvent CallMessageEntity EVENT_SOURCE TERMINATION_REASON
  | RepositoryDeleteCall string
  | ResetMediaStream
  | SendCallMessage CallMessageEntity
  | AudioPlayInLoop AudioType
  | AudioPlay AudioType
  | AudioStop AudioType
  | ParticipantReset string
  | RemoveMediaElement "string option"
  | TrackJoinedCall
  | NumberOfParticipantsChanged nat
  | StartNegotiation string

text \<open>
  A pending timer is its handle, its callback and its delay in milliseconds.
  \<open>window.setTimeout\<close> returns a handle greater than zero that it has not returned
  before; \<open>lastTimerId\<close> is the last handle given out. \<open>interruptedParticipants\<close> holds
  references to participants; the model keeps their ids.
\<close>

type_synonym pending_timer = "nat \<times> timer_callback \<times> nat"

record CallEntity =
  call_id :: string
  creatingUser_id :: string
  sessionId :: "string option"
  selfUser_id :: string
  selfUser_availability :: AvailabilityType
  participating_user_ids :: "string list"
  isGroup :: bool
  isConnected :: bool
  wasConnected :: bool
  selfClientJoined :: bool
  state :: CALL_STATE
  previousState :: "CALL_STATE option"
  terminationReason :: "TERMINATION_REASON option"
  groupCheckTimeoutId :: "nat option"
  stateTimeout :: "nat option"
  participants :: "ParticipantEntity list"
  interruptedParticipants :: "string list"
  remoteMediaType :: MediaType
  timers :: "pending_timer list"
  lastTimerId :: nat
  effects :: "effect list"

definition emit :: "effect \<Rightarrow> CallEntity \<Rightarrow> CallEntity" where
  "emit e c = c\<lparr>effects := effects c @ [e]\<rparr>"

definition window_setTimeout :: "timer_callback \<Rightarrow> nat \<Rightarrow> CallEntity \<Rightarrow> nat \<times> CallEntity" where
  "window_setTimeout cb delay c =
     (let h = Suc (lastTimerId c)
      in (h, c\<lparr>timers := timers c @ [(h, cb, delay)], lastTimerId := h\<rparr>))"

definition window_clearTimeout :: "nat \<Rightarrow> CallEntity \<Rightarrow> CallEntity" where
  "window_clearTimeout h c = c\<lparr>timers := filter (\<lambda>t. fst t \<noteq> h) (timers c)\<rparr>"

subsection \<open>Configuration\<close>

text \<open>
  Modelled from the spec: \<open>TimeUtil.UNITS_IN_MILLIS.SECOND\<close> is not among the sources;
  the delays of the spec are seconds, and a second is 1000 milliseconds.
\<close>

definition UNITS_IN_MILLIS_SECOND :: nat where
  "UNITS_IN_MILLIS_SECOND = 1000"

definition ACTIVITY_TIMEOUT :: nat where
  "ACTIVITY_TIMEOUT = 2 * 60"

definition MAXIMUM_TIMEOUT :: nat where
  "MAXIMUM_TIMEOUT = 90"

definition MINIMUM_TIMEOUT :: nat where
  "MINIMUM_TIMEOUT = 60"

definition STATE_TIMEOUT :: nat where
  "STATE_TIMEOUT = 60 * UNITS_IN_MILLIS_SECOND"

text \<open>
  Modelled from the spec: \<open>getRandomNumber\<close> (utils/NumberUtil) is not among the sources.
  The spec has the send-check delay drawn uniformly from \<open>[MIN, MAX]\<close> seconds; the
  argument \<open>draw\<close> is what the random number generator yields, and every value of the
  range is the result for some draw.
\<close>

definition getRandomNumber :: "nat \<Rightarrow> nat \<Rightarrow> nat \<Rightarrow> nat" where
  "getRandomNumber minimum maximum draw = minimum + draw mod (maximum - minimum + 1)"

text \<open>
  Modelled from the spec: \<open>CallMessageBuilder\<close> is not among the sources. A built message
  carries the type of the builder, the response flag, the session id and the payload
  handed to the builder.
\<close>

definition buildGroupStart :: "bool \<Rightarrow> string option \<Rightarrow> payload \<Rightarrow> CallMessageEntity" where
  "buildGroupStart response sid props =
     \<lparr>cm_type = GROUP_START, cm_response = response, cm_sessionId = sid,
      cm_clientId = None, cm_userId = None, cm_properties = Some props\<rparr>"

definition buildGroupLeave :: "bool \<Rightarrow> string option \<Rightarrow> payload \<Rightarrow> CallMessageEntity" where
  "buildGroupLeave response sid props =
     \<lparr>cm_type = GROUP_LEAVE, cm_response = response, cm_sessionId = sid,
      cm_clientId = None, cm_userId = None, cm_properties = Some props\<rparr>"

section \<open>Call entity: timers and the group check\<close>

definition priv_clearGroupCheckTimeout :: "CallEntity \<Rightarrow> CallEntity" where
  "priv_clearGroupCheckTimeout c =
     (case groupCheckTimeoutId c of
        None \<Rightarrow> c
      | Some h \<Rightarrow>
          if h \<noteq> 0 then (window_clearTimeout h c)\<lparr>groupCheckTimeoutId := None\<rparr> else c)"

definition priv_clearStateTimeout :: "CallEntity \<Rightarrow> CallEntity" where
  "priv_clearStateTimeout c =
     (case stateTimeout c of
        None \<Rightarrow> c
      | Some h \<Rightarrow>
          if h \<noteq> 0 then (window_clearTimeout h c)\<lparr>stateTimeout := None\<rparr> else c)"

definition getFlows :: "CallEntity \<Rightarrow> FlowEntity list" where
  "getFlows c = map (\<lambda>p. the (flowEntity p)) (filter (\<lambda>p. flowEntity p \<noteq> None) (participants c))"

definition priv_clearTimeouts :: "CallEntity \<Rightarrow> CallEntity" where
  "priv_clearTimeouts c =
     (let c1 = c\<lparr>effects := effects c @ map FlowClearTimeouts (getFlows c)\<rparr>;
          c2 = priv_clearGroupCheckTimeout c1
      in priv_clearStateTimeout c2)"

definition priv_setSendGroupCheckTimeout :: "nat \<Rightarrow> CallEntity \<Rightarrow> CallEntity" where
  "priv_setSendGroupCheckTimeout draw c =
     (let timeoutInSeconds = getRandomNumber MINIMUM_TIMEOUT MAXIMUM_TIMEOUT draw;
          timeout = timeoutInSeconds * UNITS_IN_MILLIS_SECOND;
          (h, c1) = window_setTimeout (OnSendGroupCheckTimeout timeoutInSeconds) timeout c
      in c1\<lparr>groupCheckTimeoutId := Some h\<rparr>)"

definition priv_setVerifyGroupCheckTimeout :: "CallEntity \<Rightarrow> CallEntity" where
  "priv_setVerifyGroupCheckTimeout c =
     (let timeout = ACTIVITY_TIMEOUT * UNITS_IN_MILLIS_SECOND;
          (h, c1) = window_setTimeout OnVerifyGroupCheckTimeout timeout c
      in c1\<lparr>groupCheckTimeoutId := Some h\<rparr>)"

definition scheduleGroupCheck :: "nat \<Rightarrow> CallEntity \<Rightarrow> CallEntity" where
  "scheduleGroupCheck draw c =
     (let c1 = priv_clearGroupCheckTimeout c
      in if isConnected c1 then priv_setSendGroupCheckTimeout draw c1
         else priv_setVerifyGroupCheckTimeout c1)"

section \<open>Call entity: deactivation\<close>

definition priv_deleteCall :: "CallEntity \<Rightarrow> CallMessageEntity \<Rightarrow> nat \<Rightarrow> bool \<Rightarrow> CallEntity" where
  "priv_deleteCall c callMessageEntity everyoneLeft onGroupCheck =
     (let reason = (if \<not> wasConnected c then MISSED else COMPLETED);
          eventSource = (if onGroupCheck then INJECTED else WEB_SOCKET);
          callMessageEntity1 = callMessageEntity\<lparr>cm_userId := Some (creatingUser_id c)\<rparr>;
          c1 = emit (InjectDeactivateEvent callMessageEntity1 eventSource reason) c
      in emit (RepositoryDeleteCall (call_id c1)) c1)"

text \<open>
  \<open>everyoneLeft\<close> is the number that
  \<open>this.participants().length <= 0 + fromSelf ? 1 : 0\<close> evaluates to: the comparison
  binds tighter than the conditional, and \<open>0 + fromSelf\<close> is 1 for \<open>true\<close> and 0 for
  \<open>false\<close>. The argument \<open>reason\<close> is \<open>None\<close> when the caller passes no termination
  reason; the default is \<open>SELF_USER\<close>. The result is the boolean the promise resolves
  with.
\<close>

definition deactivateCall ::
  "nat \<Rightarrow> CallEntity \<Rightarrow> CallMessageEntity \<Rightarrow> bool \<Rightarrow> TERMINATION_REASON option \<Rightarrow> bool \<times> CallEntity" where
  "deactivateCall draw c callMessageEntity fromSelf reason =
     (let terminationReason1 = (case reason of None \<Rightarrow> SELF_USER | Some r \<Rightarrow> r);
          c1 = priv_clearTimeouts c;
          everyoneLeft =
            (if length (participants c1) \<le> 0 + (if fromSelf then 1 else 0) then 1 else 0 :: nat);
          onGroupCheck = (terminationReason1 = GROUP_CHECK);
          shouldDeleteCall = (everyoneLeft \<noteq> 0 \<or> onGroupCheck)
      in if shouldDeleteCall then
           (let c2 = c1\<lparr>terminationReason := Some terminationReason1\<rparr>
            in (True, priv_deleteCall c2 callMessageEntity everyoneLeft onGroupCheck))
         else
           (let c2 = (if isGroup c1 then scheduleGroupCheck draw c1 else c1)
            in (False, emit ResetMediaStream c2)))"

text \<open>The callback of the verify timer.\<close>

definition priv_onVerifyGroupCheckTimeout :: "nat \<Rightarrow> CallEntity \<Rightarrow> CallEntity" where
  "priv_onVerifyGroupCheckTimeout draw c =
     (let additionalPayload =
            CreatePayload (call_id c) (selfUser_id c) (Some (creatingUser_id c)) None;
          callMessageEntity = buildGroupLeave False (sessionId c) additionalPayload
      in snd (deactivateCall draw c callMessageEntity False (Some GROUP_CHECK)))"

section \<open>Call entity: the state observable\<close>

definition priv_playRingTone :: "CallEntity \<Rightarrow> bool \<Rightarrow> CallEntity" where
  "priv_playRingTone c isIncoming =
     (let audioId = (if isIncoming then INCOMING_CALL else OUTGOING_CALL)
      in emit (AudioPlayInLoop audioId) c)"

definition priv_stopRingTone :: "CallEntity \<Rightarrow> bool \<Rightarrow> CallEntity" where
  "priv_stopRingTone c isIncoming =
     (let audioId = (if isIncoming then INCOMING_CALL else OUTGOING_CALL)
      in emit (AudioStop audioId) c)"

definition priv_setStateTimeout :: "CallEntity \<Rightarrow> bool \<Rightarrow> CallEntity" where
  "priv_setStateTimeout c isIncoming =
     (let (h, c1) = window_setTimeout (OnStateTimeout isIncoming) STATE_TIMEOUT c
      in c1\<lparr>stateTimeout := Some h\<rparr>)"

definition priv_onStateStartRinging :: "CallEntity \<Rightarrow> bool \<Rightarrow> CallEntity" where
  "priv_onStateStartRinging c isIncoming =
     priv_setStateTimeout (priv_playRingTone c isIncoming) isIncoming"

definition priv_onStateStopRinging :: "CALL_STATE_GROUP \<Rightarrow> CallEntity \<Rightarrow> CallEntity" where
  "priv_onStateStopRinging G c =
     (let wasUnanswered =
            (case previousState c of None \<Rightarrow> False | Some s \<Rightarrow> s \<in> set (UNANSWERED G))
      in if wasUnanswered then
           (let wasIncomingCall = (previousState c = Some INCOMING)
            in priv_stopRingTone c wasIncomingCall)
         else c)"

text \<open>The subscription on \<open>state\<close>, run with the new value after the field is written.\<close>

definition state_subscription :: "CALL_STATE_GROUP \<Rightarrow> CallEntity \<Rightarrow> CALL_STATE \<Rightarrow> CallEntity" where
  "state_subscription G c s =
     (let c1 = priv_clearStateTimeout c;
          hasState = (s \<noteq> UNKNOWN);
          c2 = (if hasState then
                  (let isUnansweredState = (s \<in> set (UNANSWERED G))
                   in if isUnansweredState then
                        (let isIncomingCall = (s = INCOMING);
                             isUserAway = (selfUser_availability c1 = AWAY);
                             dontPlaySound = (isIncomingCall \<and> isUserAway)
                         in if \<not> dontPlaySound then priv_onStateStartRinging c1 isIncomingCall
                            else c1)
                      else priv_onStateStopRinging G c1)
                else c1);
          isConnectingCall = (s = CONNECTING);
          c3 = (if isConnectingCall then emit TrackJoinedCall c2 else c2)
      in c3\<lparr>previousState := Some s\<rparr>)"

text \<open>The computed \<open>isDeclined\<close> and its subscription.\<close>

definition isDeclined :: "CallEntity \<Rightarrow> bool" where
  "isDeclined c = (state c = REJECTED)"

definition isDeclined_subscription :: "CallEntity \<Rightarrow> bool \<Rightarrow> CallEntity" where
  "isDeclined_subscription c declined = (if declined then priv_stopRingTone c True else c)"

text \<open>
  \<open>this.state(s)\<close>: an observable notifies its subscribers only when the written value
  differs from the current one, and so does a computed. The constructor subscribes to
  \<open>isDeclined\<close>, which depends on \<open>state\<close>, before it subscribes to \<open>state\<close>, so a write
  notifies the subscriber of \<open>isDeclined\<close> first, when the value of \<open>isDeclined\<close> has
  changed, and then the subscriber of \<open>state\<close>.
\<close>

definition set_state :: "CALL_STATE_GROUP \<Rightarrow> CallEntity \<Rightarrow> CALL_STATE \<Rightarrow> CallEntity" where
  "set_state G c s =
     (if state c = s then c
      else (let c1 = c\<lparr>state := s\<rparr>;
                c2 = (if isDeclined c1 \<noteq> isDeclined c
                      then isDeclined_subscription c1 (isDeclined c1) else c1)
            in state_subscription G c2 s))"

definition canConnectState :: "CALL_STATE_GROUP \<Rightarrow> CallEntity \<Rightarrow> bool" where
  "canConnectState G c = (state c \<in> set (CAN_CONNECT G))"

section \<open>Call entity: participants\<close>

text \<open>
  The collaborators of the participant methods that are not among the sources are
  parameters: the user repository's lookup, and the two methods of \<open>ParticipantEntity\<close>
  that \<open>CallEntity\<close> calls without the spec saying what they compute. \<open>updateState\<close>
  resolves with the flag \<open>skipNegotiation\<close> or rejects, and leaves the participant as
  returned.
\<close>

record collaborators =
  get_user_by_id :: "string option \<Rightarrow> error + User"
  updateState :: "ParticipantEntity \<Rightarrow> CallMessageEntity \<Rightarrow> (error + bool) \<times> ParticipantEntity"
  startNegotiation :: "ParticipantEntity \<Rightarrow> ParticipantEntity"

text \<open>
  Modelled from the spec: the constructor of \<open>ParticipantEntity\<close> is not among the sources.
  A participant is looked up by the id of its user; a new participant has no client bound,
  sends neither video nor screen, and sits in the centre.
\<close>

definition new_ParticipantEntity :: "User \<Rightarrow> ParticipantEntity" where
  "new_ParticipantEntity userEntity =
     \<lparr>p_id = user_id userEntity, p_user = userEntity, p_clientId = None, p_sessionId = None,
      screenSend = False, videoSend = False, panning = 0, flowEntity = None\<rparr>"

text \<open>
  Modelled from the spec: \<open>ParticipantEntity.verifyClientId\<close> is not among the sources. It
  binds the client id of the first message and fails with \<open>WRONG_SENDER\<close> when a later
  message carries another one.
\<close>

definition verifyClientId :: "ParticipantEntity \<Rightarrow> string \<Rightarrow> error + ParticipantEntity" where
  "verifyClientId p clientId =
     (case p_clientId p of
        None \<Rightarrow> Inr (p\<lparr>p_clientId := Some clientId\<rparr>)
      | Some bound \<Rightarrow>
          if bound = clientId then Inr p else Inl (CallError WRONG_SENDER ''Client IDs not matching''))"

text \<open>
  The loop of \<open>getParticipantById\<close>. The promise resolves with the entity itself; in the
  model a reference to an entity is its position in the array together with its value.
\<close>

fun getParticipantById_from ::
  "nat \<Rightarrow> ParticipantEntity list \<Rightarrow> string option \<Rightarrow> error + (nat \<times> ParticipantEntity)" where
  "getParticipantById_from i [] userId =
     Inl (CallError NOT_FOUND ''No participant found for user ID'')"
| "getParticipantById_from i (participantEntity # rest) userId =
     (let isExpectedId = (Some (p_id participantEntity) = userId)
      in if isExpectedId then Inr (i, participantEntity)
         else getParticipantById_from (Suc i) rest userId)"

definition getParticipantById ::
  "CallEntity \<Rightarrow> string option \<Rightarrow> (error + (nat \<times> ParticipantEntity)) \<times> CallEntity" where
  "getParticipantById c userId = (getParticipantById_from 0 (participants c) userId, c)"

text \<open>
  The subscription on the number of participants (the participants and, when the self
  client has joined, one more), notified when a write to \<open>participants\<close> changes the
  number.
\<close>

definition numberOfParticipants_computed :: "CallEntity \<Rightarrow> nat" where
  "numberOfParticipants_computed c = length (participants c) + (if selfClientJoined c then 1 else 0)"

definition set_participants :: "CallEntity \<Rightarrow> ParticipantEntity list \<Rightarrow> CallEntity" where
  "set_participants c ps =
     (let c1 = c\<lparr>participants := ps\<rparr>
      in if numberOfParticipants_computed c1 \<noteq> numberOfParticipants_computed c
         then emit (NumberOfParticipantsChanged (numberOfParticipants_computed c1)) c1 else c1)"

definition priv_updateRemoteState :: "CallEntity \<Rightarrow> CallEntity" where
  "priv_updateRemoteState c =
     (let (mediaType, mediaTypeChanged) =
            fold (\<lambda>p (m, changed).
                    if screenSend p then (SCREEN, True)
                    else if videoSend p then (VIDEO, True)
                    else (m, changed))
                 (participants c) (remoteMediaType c, False)
      in if \<not> mediaTypeChanged then c\<lparr>remoteMediaType := AUDIO\<rparr>
         else c\<lparr>remoteMediaType := mediaType\<rparr>)"

definition priv_updateParticipantState ::
  "collaborators \<Rightarrow> CallEntity \<Rightarrow> nat \<Rightarrow> bool \<Rightarrow> CallMessageEntity option
     \<Rightarrow> (error + (nat \<times> ParticipantEntity)) \<times> CallEntity" where
  "priv_updateParticipantState env c i negotiate callMessageEntity =
     (let participantEntity = participants c ! i;
          (updated, p1) =
            (case callMessageEntity of
               None \<Rightarrow> (Inr False, participantEntity)
             | Some m \<Rightarrow> updateState env participantEntity m);
          c1 = c\<lparr>participants := (participants c)[i := p1]\<rparr>
      in case updated of
           Inl e \<Rightarrow> (Inl e, c1)
         | Inr skipNegotiation \<Rightarrow>
             (let negotiate1 = (if skipNegotiation then False else negotiate);
                  c2 = priv_updateRemoteState c1
              in if negotiate1 then
                   (let p2 = startNegotiation env p1;
                        c3 = emit (StartNegotiation (p_id p1))
                               (c2\<lparr>participants := (participants c2)[i := p2]\<rparr>)
                    in (Inr (i, p2), c3))
                 else (Inr (i, p1), c2)))"

text \<open>The test \<open>callMessageEntity && callMessageEntity.clientId\<close> of \<open>_updateParticipant\<close>.\<close>

definition hasClientId :: "CallMessageEntity option \<Rightarrow> bool" where
  "hasClientId callMessageEntity =
     (case callMessageEntity of
        None \<Rightarrow> False
      | Some m \<Rightarrow> (case cm_clientId m of None \<Rightarrow> False | Some cid \<Rightarrow> cid \<noteq> []))"

definition priv_updateParticipant ::
  "collaborators \<Rightarrow> CallEntity \<Rightarrow> nat \<Rightarrow> bool \<Rightarrow> CallMessageEntity option
     \<Rightarrow> (error + (nat \<times> ParticipantEntity)) \<times> CallEntity" where
  "priv_updateParticipant env c i negotiate callMessageEntity =
     (if hasClientId callMessageEntity then
        (case verifyClientId (participants c ! i) (the (cm_clientId (the callMessageEntity))) of
           Inl e \<Rightarrow> (Inl e, c)
         | Inr p1 \<Rightarrow>
             priv_updateParticipantState env (c\<lparr>participants := (participants c)[i := p1]\<rparr>)
               i negotiate callMessageEntity)
      else priv_updateParticipantState env c i negotiate callMessageEntity)"

definition priv_addParticipant ::
  "collaborators \<Rightarrow> CallEntity \<Rightarrow> string option \<Rightarrow> bool \<Rightarrow> CallMessageEntity option
     \<Rightarrow> (error + (nat \<times> ParticipantEntity)) \<times> CallEntity" where
  "priv_addParticipant env c userId negotiate callMessageEntity =
     (let isSelfUser = (userId = Some (selfUser_id c))
      in if isSelfUser then
           (Inl (CallError WRONG_STATE ''Self user should not be added as call participant''), c)
         else
           (case get_user_by_id env userId of
              Inl e \<Rightarrow> (Inl e, c)
            | Inr userEntity \<Rightarrow>
                (let participantEntity = new_ParticipantEntity userEntity;
                     c1 = set_participants c (participants c @ [participantEntity])
                 in priv_updateParticipantState env c1 (length (participants c)) negotiate
                      callMessageEntity)))"

definition isNotFound :: "error \<Rightarrow> bool" where
  "isNotFound e = (case e of CallError t m \<Rightarrow> t = NOT_FOUND | Error m \<Rightarrow> False)"

text \<open>
  The \<open>catch\<close> handler follows the \<open>then\<close> handler in the chain, so it also sees a
  rejection of \<open>_updateParticipant\<close>.
\<close>

definition addOrUpdateParticipant ::
  "collaborators \<Rightarrow> CallEntity \<Rightarrow> string option \<Rightarrow> bool \<Rightarrow> CallMessageEntity option
     \<Rightarrow> (error + (nat \<times> ParticipantEntity)) \<times> CallEntity" where
  "addOrUpdateParticipant env c userId negotiate callMessageEntity =
     (let (found, c0) = getParticipantById c userId;
          (settled, c1) =
            (case found of
               Inl e \<Rightarrow> (Inl e, c0)
             | Inr (i, participantEntity) \<Rightarrow>
                 priv_updateParticipant env c0 i negotiate callMessageEntity)
      in case settled of
           Inr r \<Rightarrow> (Inr r, c1)
         | Inl e \<Rightarrow>
             if isNotFound e then priv_addParticipant env c1 userId negotiate callMessageEntity
             else (Inl e, c1))"

text \<open>
  The computed \<open>networkInterruption\<close> and its subscription, which is notified when a write
  to \<open>interruptedParticipants\<close> changes the value of the computed.
\<close>

definition networkInterruption :: "CallEntity \<Rightarrow> bool" where
  "networkInterruption c =
     (if isConnected c \<and> \<not> isGroup c then length (interruptedParticipants c) > 0 else False)"

definition networkInterruption_subscription :: "CallEntity \<Rightarrow> bool \<Rightarrow> CallEntity" where
  "networkInterruption_subscription c isInterrupted =
     (if isInterrupted then emit (AudioPlayInLoop NETWORK_INTERRUPTION) c
      else emit (AudioStop NETWORK_INTERRUPTION) c)"

definition interruptedParticipants_remove :: "CallEntity \<Rightarrow> string \<Rightarrow> CallEntity" where
  "interruptedParticipants_remove c userId =
     (let c1 = c\<lparr>interruptedParticipants := filter (\<lambda>u. u \<noteq> userId) (interruptedParticipants c)\<rparr>
      in if networkInterruption c1 \<noteq> networkInterruption c
         then networkInterruption_subscription c1 (networkInterruption c1) else c1)"

text \<open>
  \<open>deleteParticipant\<close>: the promise resolves with the call entity (\<open>Inr ()\<close>) or rejects.
  \<open>participants.remove\<close> takes the entity out of the array; \<open>resetParticipant\<close> of the
  entity is a call into \<open>ParticipantEntity\<close>.
\<close>

definition deleteParticipant ::
  "CallEntity \<Rightarrow> string option \<Rightarrow> string option \<Rightarrow> TERMINATION_REASON option
     \<Rightarrow> (error + unit) \<times> CallEntity" where
  "deleteParticipant c userId clientId reason =
     (case fst (getParticipantById c userId) of
        Inl e \<Rightarrow> if isNotFound e then (Inr (), c) else (Inl e, c)
      | Inr (i, participantEntity) \<Rightarrow>
          (let verified =
                 (case clientId of
                    None \<Rightarrow> Inr participantEntity
                  | Some cid \<Rightarrow>
                      if cid \<noteq> [] then verifyClientId participantEntity cid
                      else Inr participantEntity)
           in case verified of
                Inl e \<Rightarrow> if isNotFound e then (Inr (), c) else (Inl e, c)
              | Inr p1 \<Rightarrow>
                  (let c1 = emit (ParticipantReset (p_id p1)) c;
                       c2 = interruptedParticipants_remove c1 (p_id p1);
                       c3 = set_participants c2
                              (take i (participants c2) @ drop (Suc i) (participants c2));
                       c4 = priv_updateRemoteState c3;
                       c5 = emit (RemoveMediaElement userId) c4;
                       c6 = (if selfClientJoined c5 then
                               (case reason of
                                  Some OTHER_USER \<Rightarrow> emit (AudioPlay TALK_LATER) c5
                                | Some CONNECTION_DROP \<Rightarrow> emit (AudioPlay CALL_DROP) c5
                                | Some MEMBER_LEAVE \<Rightarrow> emit (AudioPlay CALL_DROP) c5
                                | _ \<Rightarrow> c5)
                             else c5)
                   in (Inr (), c6))))"

section \<open>Call entity: joining\<close>

definition sendCallMessage :: "CallEntity \<Rightarrow> CallMessageEntity \<Rightarrow> CallEntity" where
  "sendCallMessage c callMessageEntity = emit (SendCallMessage callMessageEntity) c"

definition priv_join1to1Call :: "collaborators \<Rightarrow> CallEntity \<Rightarrow> CallEntity" where
  "priv_join1to1Call env c =
     (let remoteUserId = (case participating_user_ids c of [] \<Rightarrow> None | u # rest \<Rightarrow> Some u)
      in snd (addOrUpdateParticipant env c remoteUserId True None))"

definition priv_joinGroupCall :: "CallEntity \<Rightarrow> MediaType option \<Rightarrow> CallEntity" where
  "priv_joinGroupCall c mediaTypeArg =
     (let mediaType = (case mediaTypeArg of None \<Rightarrow> AUDIO | Some m \<Rightarrow> m);
          additionalPayload = CreatePayload (call_id c) (selfUser_id c) None None;
          videoSendFlag = (mediaType = AUDIO_VIDEO);
          response = (\<not> (state c = OUTGOING));
          propSync = CreatePropSync additionalPayload (Some videoSendFlag);
          callMessageEntity = buildGroupStart response (sessionId c) propSync
      in sendCallMessage c callMessageEntity)"

definition joinCall ::
  "CALL_STATE_GROUP \<Rightarrow> collaborators \<Rightarrow> CallEntity \<Rightarrow> MediaType option \<Rightarrow> CallEntity" where
  "joinCall G env c mediaType =
     (let c1 = (if canConnectState G c then set_state G c CONNECTING else c)
      in if isGroup c1 then priv_joinGroupCall c1 mediaType else priv_join1to1Call env c1)"

section \<open>Conversation verification state handler\<close>

text \<open>
  \<open>ConversationVerificationStateHandler._checkChangeToDegraded\<close> and
  \<open>_willChangeToDegraded\<close>. The conversation entity is a record of the two observables the
  handler reads; \<open>is_verified\<close> may be \<open>undefined\<close> (\<open>None\<close>), which is why the source
  compares it with \<open>false\<close> explicitly. The events handed to
  \<open>eventRepository.injectEvent\<close> are collected in a list. The server timestamp and the
  random id of the event are parameters.
\<close>

datatype ConversationVerificationState = STATE_UNVERIFIED | STATE_VERIFIED | STATE_DEGRADED

datatype VerificationMessageType = TYPE_UNVERIFIED | TYPE_NEW_DEVICE | TYPE_NEW_MEMBER

record Conversation =
  conversation_id :: string
  conversation_selfUser_id :: string
  verification_state :: ConversationVerificationState
  is_verified :: "bool option"

record VerificationEvent =
  ev_conversation :: string
  ev_data_type :: VerificationMessageType
  ev_data_userIds :: "string list"
  ev_from :: string
  ev_id :: string
  ev_time :: nat

text \<open>
  \<open>EventBuilder.buildDegraded\<close>; the field \<open>time\<close> keeps the timestamp that is handed to
  \<open>get_next_iso_date\<close>, which is not among the sources.
\<close>

definition buildDegraded ::
  "string \<Rightarrow> Conversation \<Rightarrow> string list \<Rightarrow> VerificationMessageType \<Rightarrow> nat \<Rightarrow> VerificationEvent" where
  "buildDegraded uuid conversationEntity userIds type currentTimestamp =
     \<lparr>ev_conversation = conversation_id conversationEntity,
      ev_data_type = type,
      ev_data_userIds = userIds,
      ev_from = conversation_selfUser_id conversationEntity,
      ev_id = uuid,
      ev_time = currentTimestamp\<rparr>"

definition priv_willChangeToDegraded :: "Conversation \<Rightarrow> bool \<Rightarrow> bool \<times> Conversation" where
  "priv_willChangeToDegraded conversationEntity shouldShowDegradationWarning =
     (let st = verification_state conversationEntity;
          isDegraded = (st = STATE_DEGRADED)
      in if isDegraded then (False, conversationEntity)
         else
           (let isStateVerified = (st = STATE_VERIFIED);
                isConversationUnverified = (is_verified conversationEntity = Some False)
            in if isStateVerified \<and> isConversationUnverified then
                 (True, conversationEntity
                          \<lparr>verification_state :=
                             (if shouldShowDegradationWarning then STATE_DEGRADED
                              else STATE_UNVERIFIED)\<rparr>)
               else (False, conversationEntity)))"

text \<open>
  The result is the thrown error, or what the method returns: \<open>true\<close> (\<open>Some True\<close>) or
  nothing (\<open>None\<close>). The conversation and the injected events come back in both cases,
  since a \<open>throw\<close> does not undo the writes before it.
\<close>

definition priv_checkChangeToDegraded ::
  "nat \<Rightarrow> string \<Rightarrow> Conversation \<Rightarrow> VerificationEvent list \<Rightarrow> string list
     \<Rightarrow> VerificationMessageType
     \<Rightarrow> (error + bool option) \<times> Conversation \<times> VerificationEvent list" where
  "priv_checkChangeToDegraded currentTimestamp uuid conversationEntity injected userIds type =
     (let shouldShowDegradationWarning = (type \<noteq> TYPE_UNVERIFIED);
          (isConversationDegraded, conv1) =
            priv_willChangeToDegraded conversationEntity shouldShowDegradationWarning
      in if isConversationDegraded then
           (if length userIds = 0 then
              (Inl (Error ''Conversation degraded without affected users''),
               conv1\<lparr>verification_state := STATE_VERIFIED\<rparr>, injected)
            else
              (let event = buildDegraded uuid conv1 userIds type currentTimestamp
               in (Inr (Some True), conv1, injected @ [event])))
         else (Inr None, conv1, injected))"

section \<open>Backend client: request queue and connectivity guard\<close>

datatype QUEUE_STATE = READY | QUEUE_CONNECTIVITY_PROBLEM | ACCESS_TOKEN_REFRESH

text \<open>
  \<open>BackendClientError.STATUS_CODE\<close> and \<open>BackendClientError.LABEL\<close> are not among the
  sources; their members are told apart by name, and any other status or label is
  \<open>OTHER_STATUS\<close> or \<open>OTHER_LABEL\<close>.
\<close>

datatype STATUS_CODE =
  ACCEPTED | BAD_GATEWAY | CONFLICT | CONNECTIVITY_PROBLEM | CREATED | FORBIDDEN
  | INTERNAL_SERVER_ERROR | STATUS_NOT_FOUND | NO_CONTENT | OK | PRECONDITION_FAILED
  | REQUEST_TIMEOUT | REQUEST_TOO_LARGE | TOO_MANY_REQUESTS | UNAUTHORIZED | OTHER_STATUS nat

datatype LABEL =
  INVALID_CREDENTIALS | PASSWORD_EXISTS | TOO_MANY_CLIENTS | TOO_MANY_MEMBERS | UNKNOWN_CLIENT
  | OTHER_LABEL string



definition CONNECTIVITY_CHECK_INITIAL_TIMEOUT :: nat where
  "CONNECTIVITY_CHECK_INITIAL_TIMEOUT = 0"

record RequestConfig =
  cfg_type :: string
  cfg_url :: string
  cfg_skipRetry :: bool


text \<open>
  An entry of the request queue is the function that was queued: the one \<open>sendRequest\<close>
  pushes, or the retry that \<open>_prependRequestQueue\<close> puts in, which carries the
  \<open>resolve\<close> and \<open>reject\<close> of the promise of the failed request (the number names that
  promise). The connectivity queue holds the continuations waiting for connectivity.
\<close>

datatype queue_entry = SendRequest RequestConfig | RetryRequest RequestConfig nat

datatype connectivity_entry = ThenExecuteRequestQueue

text \<open>
  Modelled from the spec: \<open>PromiseQueue\<close> (Util/PromiseQueue) is not among the sources. The
  spec has the queue process its items in FIFO order, run up to \<open>concurrent\<close> of them at a
  time, and not dequeue while paused; \<open>unshift\<close> puts an item at the front and \<open>push\<close> at
  the back. \<open>pq_running\<close> are the items that were dispatched and have not completed, in
  the order of dispatch.
\<close>

record 'a PromiseQueue =
  pq_queue :: "'a list"
  pq_running :: "'a list"
  pq_paused :: bool
  pq_concurrent :: nat

fun pq_dispatch :: "nat \<Rightarrow> 'a PromiseQueue \<Rightarrow> 'a PromiseQueue" where
  "pq_dispatch 0 q = q"
| "pq_dispatch (Suc fuel) q =
     (case pq_queue q of
        [] \<Rightarrow> q
      | x # rest \<Rightarrow>
          if length (pq_running q) < pq_concurrent q
          then pq_dispatch fuel (q\<lparr>pq_queue := rest, pq_running := pq_running q @ [x]\<rparr>)
          else q)"

definition pq_execute :: "'a PromiseQueue \<Rightarrow> 'a PromiseQueue" where
  "pq_execute q = (if pq_paused q then q else pq_dispatch (length (pq_queue q)) q)"

definition pq_pause :: "bool \<Rightarrow> 'a PromiseQueue \<Rightarrow> 'a PromiseQueue" where
  "pq_pause shouldPause q =
     (let q1 = q\<lparr>pq_paused := shouldPause\<rparr> in if \<not> shouldPause then pq_execute q1 else q1)"


definition pq_push :: "'a \<Rightarrow> 'a PromiseQueue \<Rightarrow> 'a PromiseQueue" where
  "pq_push x q = pq_execute (q\<lparr>pq_queue := pq_queue q @ [x]\<rparr>)"



datatype backend_effect =
  RaygunSend string RequestConfig
  | PublishAccessTokenRenew
  | ScheduleCheckStatus nat nat

record BackendClient =
  queueState :: QUEUE_STATE
  requestQueue :: "queue_entry PromiseQueue"
  connectivityQueue :: "connectivity_entry PromiseQueue"
  connectivityTimeout :: "nat option"
  accessToken :: string
  bc_lastTimerId :: nat
  bc_effects :: "backend_effect list"


definition executeOnConnectivity :: "BackendClient \<Rightarrow> BackendClient" where
  "executeOnConnectivity b =
     (let b1 = b\<lparr>connectivityQueue := pq_pause True (connectivityQueue b)\<rparr>;
          b2 = b1\<lparr>connectivityQueue := pq_push ThenExecuteRequestQueue (connectivityQueue b1)\<rparr>;
          noTimeout = (case connectivityTimeout b2 of None \<Rightarrow> True | Some h \<Rightarrow> h = 0)
      in if noTimeout then
           (let h = Suc (bc_lastTimerId b2)
            in b2\<lparr>connectivityTimeout := Some h, bc_lastTimerId := h,
                  bc_effects := bc_effects b2 @
                    [ScheduleCheckStatus h CONNECTIVITY_CHECK_INITIAL_TIMEOUT]\<rparr>)
         else b2)"






section \<open>Panning\<close>

subsection \<open>Numbers\<close>

text \<open>
  A JavaScript number is an IEEE 754 double. A finite double is a rational, and every
  arithmetic operation returns the exact result rounded to the nearest double, ties to
  the even significand. \<open>double_round\<close> rounds to 53 significant bits; it is the rounding
  of doubles wherever the magnitude of the result is zero or between \<open>2^-1022\<close> and
  \<open>2^1024\<close>, which is so for every operation of \<open>_calculatePanning\<close> on an array length
  and an index into the array.
\<close>

definition round_half_even :: "rat \<Rightarrow> int" where
  "round_half_even x =
     (let f = \<lfloor>x\<rfloor>; d = x - of_int f
      in if d < 1 / 2 then f else if 1 / 2 < d then f + 1 else if even f then f else f + 1)"

text \<open>For positive \<open>x\<close>, the integer \<open>e\<close> with \<open>2^e \<le> x < 2^(e + 1)\<close>.\<close>

definition binary_exponent :: "rat \<Rightarrow> int" where
  "binary_exponent x = (if 1 \<le> x then bitlen \<lfloor>x\<rfloor> - 1 else - bitlen (\<lceil>1 / x\<rceil> - 1))"

definition double_round :: "rat \<Rightarrow> rat" where
  "double_round x =
     (if x = 0 then 0
      else (let ulp = 2 powi (binary_exponent \<bar>x\<bar> - 52)
            in of_int (round_half_even (x / ulp)) * ulp))"

definition double_add :: "rat \<Rightarrow> rat \<Rightarrow> rat" where
  "double_add x y = double_round (x + y)"

definition double_sub :: "rat \<Rightarrow> rat \<Rightarrow> rat" where
  "double_sub x y = double_round (x - y)"

definition double_mul :: "rat \<Rightarrow> rat \<Rightarrow> rat" where
  "double_mul x y = double_round (x * y)"

definition double_div :: "rat \<Rightarrow> rat \<Rightarrow> rat" where
  "double_div x y = double_round (x / y)"

subsection \<open>The panning of a position\<close>

text \<open>
  \<open>_calculatePanning(index, numberOfParticipants)\<close>; both arguments are natural numbers
  in the only call, an index of the participants array and its length. No divisor is
  zero: \<open>numberOfParticipants + 1\<close> is positive, and \<open>numberOfParticipants - 1\<close> is zero
  only for the single user, who is dealt with before.
\<close>

definition priv_calculatePanning :: "nat \<Rightarrow> nat \<Rightarrow> rat" where
  "priv_calculatePanning index numberOfParticipants =
     (let isSingleUser = (numberOfParticipants = 1)
      in if isSingleUser then 0
         else
           (let position =
                  double_div (- double_sub (of_nat numberOfParticipants) 1)
                             (double_add (of_nat numberOfParticipants) 1);
                delta =
                  double_div (double_mul (- 2) position)
                             (double_sub (of_nat numberOfParticipants) 1)
            in double_add position (double_mul delta (of_nat index))))"

text \<open>
  \<open>_sortParticipantsByPanning\<close>. \<open>Array.prototype.sort\<close> sorts the array of the observable
  in place, by the sign of the difference of the hashes, and keeps the order of
  participants with equal hashes; \<open>forEach\<close> then writes the panning of each position.
\<close>

definition assignPanning :: "ParticipantEntity list \<Rightarrow> nat \<Rightarrow> ParticipantEntity list" where
  "assignPanning ordered n =
     map (\<lambda>(index, participantEntity).
            participantEntity\<lparr>panning := priv_calculatePanning index n\<rparr>)
         (enumerate 0 ordered)"

definition priv_sortParticipantsByPanning :: "CallEntity \<Rightarrow> CallEntity" where
  "priv_sortParticipantsByPanning c =
     (let twoOrMoreParticipants = (2 \<le> length (participants c))
      in if twoOrMoreParticipants then
           (let ordered = sort_key (\<lambda>p. joaatHash (p_user p)) (participants c)
            in c\<lparr>participants := assignPanning ordered (length ordered)\<rparr>)
         else c)"

section \<open>Notions used in the properties\<close>

text \<open>
  The pending group-check timers of a call entity, and what it means that the entity
  tracks them: the handles of the pending timers are distinct, positive and at most the
  last handle given out, and every pending group-check timer has the handle that
  \<open>groupCheckTimeoutId\<close> holds.
\<close>

definition is_group_check_timer :: "pending_timer \<Rightarrow> bool" where
  "is_group_check_timer t =
     (case fst (snd t) of
        OnSendGroupCheckTimeout s \<Rightarrow> True
      | OnVerifyGroupCheckTimeout \<Rightarrow> True
      | OnStateTimeout b \<Rightarrow> False)"

definition groupCheckTimers :: "CallEntity \<Rightarrow> pending_timer list" where
  "groupCheckTimers c = filter is_group_check_timer (timers c)"

definition timers_tracked :: "CallEntity \<Rightarrow> bool" where
  "timers_tracked c =
     (distinct (map fst (timers c)) \<and>
      list_all (\<lambda>t. 0 < fst t \<and> fst t \<le> lastTimerId c) (timers c) \<and>
      list_all (\<lambda>t. groupCheckTimeoutId c = Some (fst t)) (groupCheckTimers c))"

text \<open>
  The condition under which \<open>deactivateCall\<close> is to delete the call: at most one
  participant is left when the self user triggered the deactivation and none otherwise,
  or the reason is \<open>GROUP_CHECK\<close>.
\<close>

definition shouldDeleteCall :: "CallEntity \<Rightarrow> bool \<Rightarrow> TERMINATION_REASON option \<Rightarrow> bool" where
  "shouldDeleteCall c fromSelf reason =
     (length (participants c) \<le> (if fromSelf then 1 else 0) \<or> reason = Some GROUP_CHECK)"

text \<open>
  Collaborators keep the ids: the user repository resolves with the user whose id it was
  asked for, and the methods of a participant leave its id alone.
\<close>

definition collaborators_keep_ids :: "collaborators \<Rightarrow> bool" where
  "collaborators_keep_ids env =
     ((\<forall>k u. get_user_by_id env k = Inr u \<longrightarrow> k = Some (user_id u)) \<and>
      (\<forall>p m. p_id (snd (updateState env p m)) = p_id p) \<and>
      (\<forall>p. p_id (startNegotiation env p) = p_id p))"

definition participant_ids :: "CallEntity \<Rightarrow> string list" where
  "participant_ids c = map p_id (participants c)"

text \<open>
  The panning of position \<open>i\<close> of \<open>n\<close> in exact arithmetic, as the spec writes it:
  \<open>p + (-2p/(n-1)) i\<close> with \<open>p = -(n-1)/(n+1)\<close>.
\<close>

definition exact_panning :: "nat \<Rightarrow> nat \<Rightarrow> rat" where
  "exact_panning i n =
     (let p = - (of_nat n - 1) / (of_nat n + 1)
      in p + (- 2 * p / (of_nat n - 1)) * of_nat i)"

subsection \<open>Example states\<close>

text \<open>
  A group call as the constructor leaves it (not connected, the verify timer scheduled),
  a message, two users, collaborators that look a user up by id and leave a participant
  as it is, a conversation that is in state \<open>VERIFIED\<close> and no longer verified, and a
  backend client whose queue is paused for a token refresh, with one request in flight
  and one waiting.
\<close>

definition example_message :: CallMessageEntity where
  "example_message =
     \<lparr>cm_type = GROUP_LEAVE, cm_response = False, cm_sessionId = Some ''session'',
      cm_clientId = None, cm_userId = None, cm_properties = None\<rparr>"

definition example_call :: CallEntity where
  "example_call =
     \<lparr>call_id = ''conversation'', creatingUser_id = ''alice'', sessionId = Some ''session'',
      selfUser_id = ''self'', selfUser_availability = NOT_AWAY,
      participating_user_ids = [''alice'', ''bob''], isGroup = True, isConnected = False,
      wasConnected = False, selfClientJoined = False, state = UNKNOWN, previousState = None,
      terminationReason = None, groupCheckTimeoutId = Some 1, stateTimeout = None,
      participants = [], interruptedParticipants = [], remoteMediaType = MEDIA_NONE,
      timers = [(1, OnVerifyGroupCheckTimeout, 120000)], lastTimerId = 1, effects = []\<rparr>"

definition alice :: User where
  "alice = \<lparr>user_id = ''alice'', user_name = ''Alice'', joaatHash = 200\<rparr>"

definition bob :: User where
  "bob = \<lparr>user_id = ''bob'', user_name = ''Bob'', joaatHash = 100\<rparr>"

definition example_call_two :: CallEntity where
  "example_call_two =
     example_call\<lparr>participants := [new_ParticipantEntity alice, new_ParticipantEntity bob]\<rparr>"

definition example_collaborators :: collaborators where
  "example_collaborators =
     \<lparr>get_user_by_id =
        (\<lambda>k. case k of
               None \<Rightarrow> Inl (Error ''no user id'')
             | Some u \<Rightarrow> Inr \<lparr>user_id = u, user_name = u, joaatHash = 0\<rparr>),
      updateState = (\<lambda>p m. (Inr False, p)),
      startNegotiation = (\<lambda>p. p)\<rparr>"

definition example_groups :: CALL_STATE_GROUP where
  "example_groups = \<lparr>CAN_CONNECT = [INCOMING, ONGOING, REJECTED], UNANSWERED = [INCOMING, OUTGOING]\<rparr>"

definition example_conversation :: Conversation where
  "example_conversation =
     \<lparr>conversation_id = ''conversation'', conversation_selfUser_id = ''self'',
      verification_state = STATE_VERIFIED, is_verified = Some False\<rparr>"




subsection \<open>Timers and deactivation\<close>

lemma clearGC_fields [simp]:
  "isConnected (priv_clearGroupCheckTimeout c) = isConnected c"
  "lastTimerId (priv_clearGroupCheckTimeout c) = lastTimerId c"
  "effects (priv_clearGroupCheckTimeout c) = effects c"
  "participants (priv_clearGroupCheckTimeout c) = participants c"
  "isGroup (priv_clearGroupCheckTimeout c) = isGroup c"
  "wasConnected (priv_clearGroupCheckTimeout c) = wasConnected c"
  "call_id (priv_clearGroupCheckTimeout c) = call_id c"
  "creatingUser_id (priv_clearGroupCheckTimeout c) = creatingUser_id c"
  "stateTimeout (priv_clearGroupCheckTimeout c) = stateTimeout c"
  by (simp_all add: priv_clearGroupCheckTimeout_def window_clearTimeout_def split: option.splits)

lemma tracked_at_most_one:
  assumes "timers_tracked c"
  shows "length (groupCheckTimers c) \<le> 1"
proof -
  from assms have d: "distinct (map fst (groupCheckTimers c))"
    and a: "list_all (\<lambda>t. groupCheckTimeoutId c = Some (fst t)) (groupCheckTimers c)"
    by (simp_all add: timers_tracked_def groupCheckTimers_def distinct_map_filter)
  show ?thesis
  proof (cases "groupCheckTimers c")
    case Nil then show ?thesis by simp
  next
    case (Cons t ts)
    show ?thesis
    proof (cases ts)
      case Nil with Cons show ?thesis by simp
    next
      case (Cons u us)
      with \<open>groupCheckTimers c = t # ts\<close> d a show ?thesis by auto
    qed
  qed
qed

lemma clearGC_no_gc:
  assumes "timers_tracked c"
  shows "groupCheckTimers (priv_clearGroupCheckTimeout c) = []"
proof -
  from assms have "\<forall>t\<in>set (groupCheckTimers c). groupCheckTimeoutId c = Some (fst t)"
    by (simp add: timers_tracked_def list_all_iff)
  then have a: "\<forall>t\<in>set (timers c). is_group_check_timer t \<longrightarrow> groupCheckTimeoutId c = Some (fst t)"
    unfolding groupCheckTimers_def set_filter by blast
  from assms have p: "\<forall>t\<in>set (timers c). 0 < fst t"
    by (simp add: timers_tracked_def list_all_iff)
  show ?thesis
  proof (cases "groupCheckTimeoutId c")
    case None
    with a show ?thesis
      by (auto simp: priv_clearGroupCheckTimeout_def groupCheckTimers_def filter_empty_conv)
  next
    case (Some h)
    with a p have "\<forall>t\<in>set (timers c). is_group_check_timer t \<longrightarrow> fst t = h \<and> h \<noteq> 0"
      by fastforce
    with Some show ?thesis
      by (auto simp: priv_clearGroupCheckTimeout_def groupCheckTimers_def filter_empty_conv
            window_clearTimeout_def)
  qed
qed

lemma clearGC_timers_subset:
  "set (timers (priv_clearGroupCheckTimeout c)) \<subseteq> set (timers c)"
  by (auto simp: priv_clearGroupCheckTimeout_def window_clearTimeout_def split: option.splits)

lemma clearGC_distinct:
  "distinct (map fst (timers c)) \<Longrightarrow> distinct (map fst (timers (priv_clearGroupCheckTimeout c)))"
  by (auto simp: priv_clearGroupCheckTimeout_def window_clearTimeout_def distinct_map_filter
      split: option.splits)

lemma scheduleGroupCheck_timers:
  "timers (scheduleGroupCheck draw c) =
     timers (priv_clearGroupCheckTimeout c) @
       [(Suc (lastTimerId c),
         if isConnected c
         then (OnSendGroupCheckTimeout (getRandomNumber MINIMUM_TIMEOUT MAXIMUM_TIMEOUT draw),
               getRandomNumber MINIMUM_TIMEOUT MAXIMUM_TIMEOUT draw * UNITS_IN_MILLIS_SECOND)
         else (OnVerifyGroupCheckTimeout, ACTIVITY_TIMEOUT * UNITS_IN_MILLIS_SECOND))]"
  by (simp add: scheduleGroupCheck_def priv_setSendGroupCheckTimeout_def
      priv_setVerifyGroupCheckTimeout_def window_setTimeout_def Let_def)

lemma scheduleGroupCheck_fields [simp]:
  "groupCheckTimeoutId (scheduleGroupCheck draw c) = Some (Suc (lastTimerId c))"
  "lastTimerId (scheduleGroupCheck draw c) = Suc (lastTimerId c)"
  "effects (scheduleGroupCheck draw c) = effects c"
  "isGroup (scheduleGroupCheck draw c) = isGroup c"
  "participants (scheduleGroupCheck draw c) = participants c"
  by (simp_all add: scheduleGroupCheck_def priv_setSendGroupCheckTimeout_def
      priv_setVerifyGroupCheckTimeout_def window_setTimeout_def Let_def)

lemma getRandomNumber_range:
  "MINIMUM_TIMEOUT \<le> getRandomNumber MINIMUM_TIMEOUT MAXIMUM_TIMEOUT draw \<and>
   getRandomNumber MINIMUM_TIMEOUT MAXIMUM_TIMEOUT draw \<le> MAXIMUM_TIMEOUT"
proof -
  have "draw mod 31 < 31" by simp
  then show ?thesis
    by (simp add: getRandomNumber_def MINIMUM_TIMEOUT_def MAXIMUM_TIMEOUT_def)
qed

lemma scheduleGroupCheck_result:
  assumes "timers_tracked c"
  shows "groupCheckTimers (scheduleGroupCheck draw c) =
           [(Suc (lastTimerId c),
             if isConnected c
             then (OnSendGroupCheckTimeout (getRandomNumber MINIMUM_TIMEOUT MAXIMUM_TIMEOUT draw),
                   getRandomNumber MINIMUM_TIMEOUT MAXIMUM_TIMEOUT draw * UNITS_IN_MILLIS_SECOND)
             else (OnVerifyGroupCheckTimeout, ACTIVITY_TIMEOUT * UNITS_IN_MILLIS_SECOND))]"
    and "timers_tracked (scheduleGroupCheck draw c)"
proof -
  let ?c1 = "priv_clearGroupCheckTimeout c"
  let ?c' = "scheduleGroupCheck draw c"
  let ?h = "Suc (lastTimerId c)"
  let ?new = "(?h,
             if isConnected c
             then (OnSendGroupCheckTimeout (getRandomNumber MINIMUM_TIMEOUT MAXIMUM_TIMEOUT draw),
                   getRandomNumber MINIMUM_TIMEOUT MAXIMUM_TIMEOUT draw * UNITS_IN_MILLIS_SECOND)
             else (OnVerifyGroupCheckTimeout, ACTIVITY_TIMEOUT * UNITS_IN_MILLIS_SECOND))"
  have t: "timers ?c' = timers ?c1 @ [?new]" by (rule scheduleGroupCheck_timers)
  have none: "groupCheckTimers ?c1 = []" using assms by (rule clearGC_no_gc)
  show gc: "groupCheckTimers ?c' = [?new]"
    using none by (simp add: groupCheckTimers_def t is_group_check_timer_def)
  from assms have d: "distinct (map fst (timers c))"
    and b: "\<forall>t\<in>set (timers c). 0 < fst t \<and> fst t \<le> lastTimerId c"
    by (auto simp: timers_tracked_def list_all_iff)
  have b1: "\<forall>t\<in>set (timers ?c1). 0 < fst t \<and> fst t \<le> lastTimerId c"
    using b clearGC_timers_subset [of c] by blast
  have d1: "distinct (map fst (timers ?c1))" using d by (rule clearGC_distinct)
  have fresh: "?h \<notin> fst ` set (timers ?c1)" using b1 by force
  show "timers_tracked ?c'"
    unfolding timers_tracked_def
    using d1 fresh b1 gc by (auto simp: t list_all_iff)
qed

text \<open>
  Claim C8. In a state where the entity tracks its group-check timer (every pending
  group-check timer has the handle stored in \<open>groupCheckTimeoutId\<close>, handles are positive
  and not reused), at most one group-check timer is pending. \<open>scheduleGroupCheck\<close> clears
  it and leaves exactly one pending group-check timer, the new one: the send timer with a
  delay of 60 to 90 seconds when the call is connected, the verify timer with the delay
  of 120 seconds otherwise. The new state tracks its timer again, so the two kinds are
  never pending together. (A call entity starts without timers, and the other methods
  that touch timers keep the tracking, as shown after this.)
\<close>

theorem scheduleGroupCheck_one_timer:
  assumes "timers_tracked c"
  shows "length (groupCheckTimers c) \<le> 1 \<and> (\<exists>cb delay.
           groupCheckTimers (scheduleGroupCheck draw c) = [(Suc (lastTimerId c), cb, delay)] \<and>
           groupCheckTimeoutId (scheduleGroupCheck draw c) = Some (Suc (lastTimerId c)) \<and>
           (if isConnected c
            then (\<exists>secs. cb = OnSendGroupCheckTimeout secs \<and> 60 \<le> secs \<and> secs \<le> 90 \<and>
                         delay = secs * 1000)
            else cb = OnVerifyGroupCheckTimeout \<and> delay = 120 * 1000) \<and>
           timers_tracked (scheduleGroupCheck draw c))"
proof -
  let ?c' = "scheduleGroupCheck draw c"
  let ?h = "Suc (lastTimerId c)"
  let ?secs = "getRandomNumber MINIMUM_TIMEOUT MAXIMUM_TIMEOUT draw"
  let ?cb = "if isConnected c then OnSendGroupCheckTimeout ?secs else OnVerifyGroupCheckTimeout"
  let ?delay = "if isConnected c then ?secs * UNITS_IN_MILLIS_SECOND
                else ACTIVITY_TIMEOUT * UNITS_IN_MILLIS_SECOND"
  have gc: "groupCheckTimers ?c' = [(?h, ?cb, ?delay)]"
    using scheduleGroupCheck_result(1) [OF assms, of draw] by (simp split: if_splits)
  have tr: "timers_tracked ?c'" using assms by (rule scheduleGroupCheck_result(2))
  have r: "60 \<le> ?secs \<and> ?secs \<le> 90"
    using getRandomNumber_range [of draw] by (simp add: MINIMUM_TIMEOUT_def MAXIMUM_TIMEOUT_def)
  have kind: "if isConnected c
            then (\<exists>secs. ?cb = OnSendGroupCheckTimeout secs \<and> 60 \<le> secs \<and> secs \<le> 90 \<and>
                         ?delay = secs * 1000)
            else ?cb = OnVerifyGroupCheckTimeout \<and> ?delay = 120 * 1000"
    using r by (simp add: UNITS_IN_MILLIS_SECOND_def ACTIVITY_TIMEOUT_def)
  have one: "length (groupCheckTimers c) \<le> 1" using assms by (rule tracked_at_most_one)
  have "\<exists>cb delay.
           groupCheckTimers ?c' = [(?h, cb, delay)] \<and>
           groupCheckTimeoutId ?c' = Some ?h \<and>
           (if isConnected c
            then (\<exists>secs. cb = OnSendGroupCheckTimeout secs \<and> 60 \<le> secs \<and> secs \<le> 90 \<and>
                         delay = secs * 1000)
            else cb = OnVerifyGroupCheckTimeout \<and> delay = 120 * 1000) \<and>
           timers_tracked ?c'"
    using gc kind tr by (intro exI [of _ ?cb] exI [of _ ?delay]) simp
  with one show ?thesis by blast
qed

theorem scheduleGroupCheck_one_timer_witness:
  "timers_tracked example_call \<and>
   groupCheckTimers example_call = [(1, OnVerifyGroupCheckTimeout, 120000)] \<and>
   groupCheckTimers (scheduleGroupCheck 7 example_call) = [(2, OnVerifyGroupCheckTimeout, 120000)] \<and>
   timers_tracked (scheduleGroupCheck 7 example_call)"
proof -
  have h: "timers_tracked example_call"
    by (simp add: timers_tracked_def groupCheckTimers_def is_group_check_timer_def
        example_call_def)
  have g: "groupCheckTimers example_call = [(1, OnVerifyGroupCheckTimeout, 120000)]"
    by (simp add: groupCheckTimers_def is_group_check_timer_def example_call_def)
  from scheduleGroupCheck_one_timer [OF h, of 7]
  have "groupCheckTimers (scheduleGroupCheck 7 example_call) =
          [(2, OnVerifyGroupCheckTimeout, 120000)] \<and>
        timers_tracked (scheduleGroupCheck 7 example_call)"
    by (auto simp: example_call_def)
  with h g show ?thesis by simp
qed

lemma clearState_fields [simp]:
  "isConnected (priv_clearStateTimeout c) = isConnected c"
  "lastTimerId (priv_clearStateTimeout c) = lastTimerId c"
  "effects (priv_clearStateTimeout c) = effects c"
  "participants (priv_clearStateTimeout c) = participants c"
  "isGroup (priv_clearStateTimeout c) = isGroup c"
  "wasConnected (priv_clearStateTimeout c) = wasConnected c"
  "call_id (priv_clearStateTimeout c) = call_id c"
  "creatingUser_id (priv_clearStateTimeout c) = creatingUser_id c"
  "groupCheckTimeoutId (priv_clearStateTimeout c) = groupCheckTimeoutId c"
  "terminationReason (priv_clearStateTimeout c) = terminationReason c"
  "state (priv_clearStateTimeout c) = state c"
  by (simp_all add: priv_clearStateTimeout_def window_clearTimeout_def split: option.splits)

lemma clearState_timers_subset:
  "set (timers (priv_clearStateTimeout c)) \<subseteq> set (timers c)"
  by (auto simp: priv_clearStateTimeout_def window_clearTimeout_def split: option.splits)

lemma clearGC_termination [simp]:
  "terminationReason (priv_clearGroupCheckTimeout c) = terminationReason c"
  "state (priv_clearGroupCheckTimeout c) = state c"
  by (simp_all add: priv_clearGroupCheckTimeout_def window_clearTimeout_def split: option.splits)

lemma clearTimeouts_fields [simp]:
  "isConnected (priv_clearTimeouts c) = isConnected c"
  "lastTimerId (priv_clearTimeouts c) = lastTimerId c"
  "effects (priv_clearTimeouts c) = effects c @ map FlowClearTimeouts (getFlows c)"
  "participants (priv_clearTimeouts c) = participants c"
  "isGroup (priv_clearTimeouts c) = isGroup c"
  "wasConnected (priv_clearTimeouts c) = wasConnected c"
  "call_id (priv_clearTimeouts c) = call_id c"
  "creatingUser_id (priv_clearTimeouts c) = creatingUser_id c"
  "terminationReason (priv_clearTimeouts c) = terminationReason c"
  by (simp_all add: priv_clearTimeouts_def Let_def)

lemma clearTimeouts_timers_subset:
  "set (timers (priv_clearTimeouts c)) \<subseteq> set (timers c)"
proof -
  let ?c1 = "c\<lparr>effects := effects c @ map FlowClearTimeouts (getFlows c)\<rparr>"
  have "set (timers (priv_clearTimeouts c)) \<subseteq> set (timers (priv_clearGroupCheckTimeout ?c1))"
    unfolding priv_clearTimeouts_def Let_def by (rule clearState_timers_subset)
  also have "\<dots> \<subseteq> set (timers ?c1)" by (rule clearGC_timers_subset)
  finally show ?thesis by simp
qed

lemma clearTimeouts_no_gc:
  assumes "timers_tracked c"
  shows "groupCheckTimers (priv_clearTimeouts c) = []"
proof -
  let ?c1 = "c\<lparr>effects := effects c @ map FlowClearTimeouts (getFlows c)\<rparr>"
  have "timers_tracked ?c1" using assms by (simp add: timers_tracked_def groupCheckTimers_def)
  then have "groupCheckTimers (priv_clearGroupCheckTimeout ?c1) = []" by (rule clearGC_no_gc)
  then have "\<forall>t\<in>set (timers (priv_clearGroupCheckTimeout ?c1)). \<not> is_group_check_timer t"
    by (simp add: groupCheckTimers_def filter_empty_conv)
  then have "\<forall>t\<in>set (timers (priv_clearTimeouts c)). \<not> is_group_check_timer t"
    using clearState_timers_subset [of "priv_clearGroupCheckTimeout ?c1"]
    unfolding priv_clearTimeouts_def Let_def by blast
  then show ?thesis by (simp add: groupCheckTimers_def filter_empty_conv)
qed

lemma clearGC_cleared:
  "groupCheckTimeoutId (priv_clearGroupCheckTimeout c) = None \<or>
   groupCheckTimeoutId (priv_clearGroupCheckTimeout c) = Some 0"
  by (simp add: priv_clearGroupCheckTimeout_def window_clearTimeout_def split: option.splits)

lemma clearGC_clearTimeouts:
  "priv_clearGroupCheckTimeout (priv_clearTimeouts c) = priv_clearTimeouts c"
proof -
  let ?c1 = "c\<lparr>effects := effects c @ map FlowClearTimeouts (getFlows c)\<rparr>"
  have "groupCheckTimeoutId (priv_clearTimeouts c) =
          groupCheckTimeoutId (priv_clearGroupCheckTimeout ?c1)"
    by (simp add: priv_clearTimeouts_def Let_def)
  with clearGC_cleared [of ?c1]
  have "groupCheckTimeoutId (priv_clearTimeouts c) = None \<or>
        groupCheckTimeoutId (priv_clearTimeouts c) = Some 0" by simp
  then show ?thesis by (auto simp: priv_clearGroupCheckTimeout_def)
qed

lemma deleteCall_fields [simp]:
  "effects (priv_deleteCall c m e g) =
     effects c @ [InjectDeactivateEvent (m\<lparr>cm_userId := Some (creatingUser_id c)\<rparr>)
                    (if g then INJECTED else WEB_SOCKET)
                    (if wasConnected c then COMPLETED else MISSED),
                  RepositoryDeleteCall (call_id c)]"
  "timers (priv_deleteCall c m e g) = timers c"
  "lastTimerId (priv_deleteCall c m e g) = lastTimerId c"
  "terminationReason (priv_deleteCall c m e g) = terminationReason c"
  "groupCheckTimeoutId (priv_deleteCall c m e g) = groupCheckTimeoutId c"
  by (simp_all add: priv_deleteCall_def emit_def Let_def)

lemma deactivateCall_delete:
  assumes "shouldDeleteCall c fromSelf reason"
  shows "deactivateCall draw c m fromSelf reason =
           (True, priv_deleteCall
                    ((priv_clearTimeouts c)
                       \<lparr>terminationReason := Some (case reason of None \<Rightarrow> SELF_USER | Some r \<Rightarrow> r)\<rparr>)
                    m (if length (participants c) \<le> (if fromSelf then 1 else 0) then 1 else 0)
                    (reason = Some GROUP_CHECK))"
  using assms
  by (cases reason) (auto simp: deactivateCall_def shouldDeleteCall_def Let_def)

lemma deactivateCall_keep:
  assumes "\<not> shouldDeleteCall c fromSelf reason"
  shows "deactivateCall draw c m fromSelf reason =
           (False, emit ResetMediaStream
                     (if isGroup c then scheduleGroupCheck draw (priv_clearTimeouts c)
                      else priv_clearTimeouts c))"
  using assms
  by (cases reason) (auto simp: deactivateCall_def shouldDeleteCall_def Let_def)

text \<open>
  Claim C1. With no participants, \<open>fromSelf = true\<close> and a reason other than
  \<open>GROUP_CHECK\<close>, \<open>deactivateCall\<close> resolves with \<open>true\<close>, sets the termination reason
  (\<open>SELF_USER\<close> when none is given), and adds exactly two effects: one deactivation event
  from the web socket source, with reason \<open>MISSED\<close> if the call was never connected and
  \<open>COMPLETED\<close> otherwise, and one deletion of the call. It sets no timer, and when the
  entity tracked its group-check timer, no group-check timer is pending afterwards.
\<close>

theorem deactivateCall_no_participants_fromSelf:
  assumes "participants c = []" and "reason \<noteq> Some GROUP_CHECK"
  shows "fst (deactivateCall draw c m True reason) = True \<and>
         terminationReason (snd (deactivateCall draw c m True reason)) =
           Some (case reason of None \<Rightarrow> SELF_USER | Some r \<Rightarrow> r) \<and>
         effects (snd (deactivateCall draw c m True reason)) =
           effects c @
             [InjectDeactivateEvent (m\<lparr>cm_userId := Some (creatingUser_id c)\<rparr>) WEB_SOCKET
                (if wasConnected c then COMPLETED else MISSED),
              RepositoryDeleteCall (call_id c)] \<and>
         lastTimerId (snd (deactivateCall draw c m True reason)) = lastTimerId c \<and>
         set (timers (snd (deactivateCall draw c m True reason))) \<subseteq> set (timers c) \<and>
         (timers_tracked c \<longrightarrow> groupCheckTimers (snd (deactivateCall draw c m True reason)) = [])"
proof -
  have s: "shouldDeleteCall c True reason" using assms by (simp add: shouldDeleteCall_def)
  have f: "getFlows c = []" using assms by (simp add: getFlows_def)
  have sub: "set (timers (priv_clearTimeouts c)) \<subseteq> set (timers c)"
    by (rule clearTimeouts_timers_subset)
  have gc: "timers_tracked c \<Longrightarrow> groupCheckTimers (priv_clearTimeouts c) = []"
    by (rule clearTimeouts_no_gc)
  show ?thesis
    using assms(2) sub gc by (simp add: deactivateCall_delete [OF s] f groupCheckTimers_def)
qed

theorem deactivateCall_no_participants_fromSelf_witness:
  "participants example_call = [] \<and> Some OTHER_USER \<noteq> Some GROUP_CHECK \<and>
   timers_tracked example_call \<and>
   fst (deactivateCall 7 example_call example_message True (Some OTHER_USER)) \<and>
   terminationReason (snd (deactivateCall 7 example_call example_message True (Some OTHER_USER))) =
     Some OTHER_USER \<and>
   effects (snd (deactivateCall 7 example_call example_message True (Some OTHER_USER))) =
     [InjectDeactivateEvent (example_message\<lparr>cm_userId := Some ''alice''\<rparr>) WEB_SOCKET MISSED,
      RepositoryDeleteCall ''conversation''] \<and>
   groupCheckTimers (snd (deactivateCall 7 example_call example_message True (Some OTHER_USER))) = []"
proof -
  have p: "participants example_call = []" by (simp add: example_call_def)
  have r: "Some OTHER_USER \<noteq> Some GROUP_CHECK" by simp
  have h: "timers_tracked example_call"
    by (simp add: timers_tracked_def groupCheckTimers_def is_group_check_timer_def
        example_call_def)
  have e: "effects example_call = []" "wasConnected example_call = False"
    "creatingUser_id example_call = ''alice''" "call_id example_call = ''conversation''"
    by (simp_all add: example_call_def)
  from deactivateCall_no_participants_fromSelf [OF p r, of 7 example_message] h e p
  show ?thesis by simp
qed

lemma getParticipantById_from_Inr:
  "getParticipantById_from k ps userId = Inr (i, p) \<Longrightarrow>
     k \<le> i \<and> i - k < length ps \<and> ps ! (i - k) = p \<and> Some (p_id p) = userId \<and>
     (\<forall>j < i - k. Some (p_id (ps ! j)) \<noteq> userId)"
proof (induction ps arbitrary: k)
  case Nil
  then show ?case by simp
next
  case (Cons q qs)
  show ?case
  proof (cases "Some (p_id q) = userId")
    case True
    with Cons.prems show ?thesis by auto
  next
    case False
    with Cons.prems have r: "getParticipantById_from (Suc k) qs userId = Inr (i, p)" by simp
    from Cons.IH [OF r] have ih: "Suc k \<le> i" "i - Suc k < length qs" "qs ! (i - Suc k) = p"
      "Some (p_id p) = userId" "\<forall>j < i - Suc k. Some (p_id (qs ! j)) \<noteq> userId" by auto
    from ih(1) have e: "i - k = Suc (i - Suc k)" by simp
    have "\<forall>j < i - k. Some (p_id ((q # qs) ! j)) \<noteq> userId"
    proof (intro allI impI)
      fix j assume "j < i - k"
      then show "Some (p_id ((q # qs) ! j)) \<noteq> userId"
        using False ih(5) e by (cases j) auto
    qed
    with ih e show ?thesis by auto
  qed
qed

lemma getParticipantById_from_Inl:
  "getParticipantById_from k ps userId = Inl e \<Longrightarrow>
     e = CallError NOT_FOUND ''No participant found for user ID'' \<and>
     (\<forall>p\<in>set ps. Some (p_id p) \<noteq> userId)"
  by (induction ps arbitrary: k) (auto split: if_splits)

lemma getParticipantById_from_absent:
  "\<forall>p\<in>set ps. Some (p_id p) \<noteq> userId \<Longrightarrow>
     getParticipantById_from k ps userId = Inl (CallError NOT_FOUND ''No participant found for user ID'')"
  by (induction ps arbitrary: k) auto

lemma distinct_ids_unique:
  assumes "distinct (map p_id ps)" "p \<in> set ps" "q \<in> set ps" "p_id p = p_id q"
  shows "p = q"
  using assms by (meson distinct_map inj_onD)

text \<open>
  Claim C7. When a participant with the given user id is present, \<open>getParticipantById\<close>
  resolves with the first such participant of the array, which is the only one when the
  ids of the participants are distinct. When none is present it rejects with the
  \<open>NOT_FOUND\<close> call error. In both cases the call entity, and so the participants, are
  unchanged.
\<close>

theorem getParticipantById_resolves_or_not_found:
  "((\<exists>p\<in>set (participants c). Some (p_id p) = userId) \<longrightarrow>
      (\<exists>i p. fst (getParticipantById c userId) = Inr (i, p) \<and>
              i < length (participants c) \<and> participants c ! i = p \<and>
              Some (p_id p) = userId \<and>
              (\<forall>j<i. Some (p_id (participants c ! j)) \<noteq> userId) \<and>
              (distinct (map p_id (participants c)) \<longrightarrow>
                 (\<forall>q\<in>set (participants c). Some (p_id q) = userId \<longrightarrow> q = p)))) \<and>
   ((\<forall>p\<in>set (participants c). Some (p_id p) \<noteq> userId) \<longrightarrow>
      fst (getParticipantById c userId) =
        Inl (CallError NOT_FOUND ''No participant found for user ID'')) \<and>
   snd (getParticipantById c userId) = c"
proof (intro conjI impI)
  assume ex: "\<exists>p\<in>set (participants c). Some (p_id p) = userId"
  obtain r where r: "getParticipantById_from 0 (participants c) userId = r" by simp
  show "\<exists>i p. fst (getParticipantById c userId) = Inr (i, p) \<and>
              i < length (participants c) \<and> participants c ! i = p \<and>
              Some (p_id p) = userId \<and>
              (\<forall>j<i. Some (p_id (participants c ! j)) \<noteq> userId) \<and>
              (distinct (map p_id (participants c)) \<longrightarrow>
                 (\<forall>q\<in>set (participants c). Some (p_id q) = userId \<longrightarrow> q = p))"
  proof (cases r)
    case (Inl e)
    with r getParticipantById_from_Inl [of 0 "participants c" userId e] ex show ?thesis by blast
  next
    case (Inr ip)
    obtain i p where ip: "ip = (i, p)" by (cases ip)
    from r Inr ip have g: "getParticipantById_from 0 (participants c) userId = Inr (i, p)" by simp
    from getParticipantById_from_Inr [OF g]
    have f: "i < length (participants c)" "participants c ! i = p" "Some (p_id p) = userId"
      "\<forall>j<i. Some (p_id (participants c ! j)) \<noteq> userId" by auto
    from f(1,2) have mem: "p \<in> set (participants c)" by auto
    have u: "distinct (map p_id (participants c)) \<longrightarrow>
                 (\<forall>q\<in>set (participants c). Some (p_id q) = userId \<longrightarrow> q = p)"
      using mem f(3) distinct_ids_unique [of "participants c"] by (metis option.inject)
    show ?thesis using g f u by (simp add: getParticipantById_def)
  qed
next
  assume "\<forall>p\<in>set (participants c). Some (p_id p) \<noteq> userId"
  then show "fst (getParticipantById c userId) =
        Inl (CallError NOT_FOUND ''No participant found for user ID'')"
    by (simp add: getParticipantById_def getParticipantById_from_absent)
next
  show "snd (getParticipantById c userId) = c" by (simp add: getParticipantById_def)
qed

theorem getParticipantById_resolves_or_not_found_witness:
  "(\<exists>p\<in>set (participants example_call_two). Some (p_id p) = Some ''bob'') \<and>
   distinct (map p_id (participants example_call_two)) \<and>
   fst (getParticipantById example_call_two (Some ''bob'')) = Inr (1, new_ParticipantEntity bob) \<and>
   list_all (\<lambda>p. Some (p_id p) \<noteq> Some ''carol'') (participants example_call_two) \<and>
   fst (getParticipantById example_call_two (Some ''carol'')) =
     Inl (CallError NOT_FOUND ''No participant found for user ID'') \<and>
   snd (getParticipantById example_call_two (Some ''carol'')) = example_call_two"
proof -
  have ps: "participants example_call_two = [new_ParticipantEntity alice, new_ParticipantEntity bob]"
    by (simp add: example_call_two_def)
  have ids: "p_id (new_ParticipantEntity alice) = ''alice''" "p_id (new_ParticipantEntity bob) = ''bob''"
    by (simp_all add: new_ParticipantEntity_def alice_def bob_def)
  have a: "\<exists>p\<in>set (participants example_call_two). Some (p_id p) = Some ''bob''"
    by (simp add: ps ids)
  have d: "distinct (map p_id (participants example_call_two))" by (simp add: ps ids)
  have n: "\<forall>p\<in>set (participants example_call_two). Some (p_id p) \<noteq> Some ''carol''"
    by (simp add: ps ids)
  from getParticipantById_resolves_or_not_found [of example_call_two "Some ''bob''"] a
  obtain i p where r: "fst (getParticipantById example_call_two (Some ''bob'')) = Inr (i, p)"
    "i < length (participants example_call_two)" "participants example_call_two ! i = p"
    "Some (p_id p) = Some ''bob''" by blast
  from r(2) have "i = 0 \<or> i = 1" by (auto simp: ps)
  with r(3,4) have "i = 1 \<and> p = new_ParticipantEntity bob" by (auto simp: ps ids)
  with r(1) have b: "fst (getParticipantById example_call_two (Some ''bob'')) =
                       Inr (1, new_ParticipantEntity bob)" by simp
  from getParticipantById_resolves_or_not_found [of example_call_two "Some ''carol''"] n
  have c: "fst (getParticipantById example_call_two (Some ''carol'')) =
             Inl (CallError NOT_FOUND ''No participant found for user ID'') \<and>
           snd (getParticipantById example_call_two (Some ''carol'')) = example_call_two"
    by blast
  from n have n': "list_all (\<lambda>p. Some (p_id p) \<noteq> Some ''carol'') (participants example_call_two)"
    by (simp add: list_all_iff)
  from a d b n' c show ?thesis by blast
qed

subsection \<open>The group-check timer stays tracked\<close>

text \<open>
  A call entity without timers tracks its group-check timer, and clearing the timers,
  \<open>scheduleGroupCheck\<close>, \<open>deactivateCall\<close> and a write to \<open>state\<close> keep it tracked.
\<close>

lemma tracked_cong:
  assumes "timers c' = timers c" "lastTimerId c' = lastTimerId c"
    "groupCheckTimeoutId c' = groupCheckTimeoutId c"
  shows "timers_tracked c' = timers_tracked c"
  using assms by (simp add: timers_tracked_def groupCheckTimers_def)

lemma tracked_filter:
  assumes "timers_tracked c"
    and t: "timers c' = filter P (timers c)"
    and l: "lastTimerId c' = lastTimerId c"
    and g: "groupCheckTimeoutId c' = groupCheckTimeoutId c \<or> groupCheckTimers c' = []"
  shows "timers_tracked c'"
proof -
  from assms(1) have d: "distinct (map fst (timers c))"
    and b: "\<forall>t\<in>set (timers c). 0 < fst t \<and> fst t \<le> lastTimerId c"
    and k: "\<forall>t\<in>set (groupCheckTimers c). groupCheckTimeoutId c = Some (fst t)"
    by (simp_all add: timers_tracked_def list_all_iff)
  have d': "distinct (map fst (timers c'))" using d by (simp add: t distinct_map_filter)
  have b': "\<forall>t\<in>set (timers c'). 0 < fst t \<and> fst t \<le> lastTimerId c'"
    using b by (simp add: t l)
  have sub: "set (groupCheckTimers c') \<subseteq> set (groupCheckTimers c)"
    by (auto simp: groupCheckTimers_def t)
  have k': "\<forall>t\<in>set (groupCheckTimers c'). groupCheckTimeoutId c' = Some (fst t)"
    using g k sub by auto
  from d' b' k' show ?thesis by (simp add: timers_tracked_def list_all_iff)
qed

lemma tracked_emit [simp]: "timers_tracked (emit e c) = timers_tracked c"
  by (rule tracked_cong) (simp_all add: emit_def)

lemma tracked_clearGroupCheckTimeout:
  assumes "timers_tracked c"
  shows "timers_tracked (priv_clearGroupCheckTimeout c)"
proof (rule tracked_filter [OF assms])
  show "timers (priv_clearGroupCheckTimeout c) =
          filter (\<lambda>t. case groupCheckTimeoutId c of None \<Rightarrow> True
                        | Some h \<Rightarrow> h = 0 \<or> fst t \<noteq> h) (timers c)"
    by (simp add: priv_clearGroupCheckTimeout_def window_clearTimeout_def split: option.splits)
  show "lastTimerId (priv_clearGroupCheckTimeout c) = lastTimerId c" by simp
  show "groupCheckTimeoutId (priv_clearGroupCheckTimeout c) = groupCheckTimeoutId c \<or>
        groupCheckTimers (priv_clearGroupCheckTimeout c) = []"
    using clearGC_no_gc [OF assms] by simp
qed

lemma tracked_clearStateTimeout:
  assumes "timers_tracked c"
  shows "timers_tracked (priv_clearStateTimeout c)"
proof (rule tracked_filter [OF assms])
  show "timers (priv_clearStateTimeout c) =
          filter (\<lambda>t. case stateTimeout c of None \<Rightarrow> True
                        | Some h \<Rightarrow> h = 0 \<or> fst t \<noteq> h) (timers c)"
    by (simp add: priv_clearStateTimeout_def window_clearTimeout_def split: option.splits)
  show "lastTimerId (priv_clearStateTimeout c) = lastTimerId c" by simp
  show "groupCheckTimeoutId (priv_clearStateTimeout c) = groupCheckTimeoutId c \<or>
        groupCheckTimers (priv_clearStateTimeout c) = []"
    by simp
qed

lemma tracked_clearTimeouts:
  assumes "timers_tracked c"
  shows "timers_tracked (priv_clearTimeouts c)"
proof -
  let ?c1 = "c\<lparr>effects := effects c @ map FlowClearTimeouts (getFlows c)\<rparr>"
  have "timers_tracked ?c1 = timers_tracked c" by (rule tracked_cong) simp_all
  with assms have "timers_tracked ?c1" by simp
  then have "timers_tracked (priv_clearStateTimeout (priv_clearGroupCheckTimeout ?c1))"
    by (intro tracked_clearStateTimeout tracked_clearGroupCheckTimeout)
  then show ?thesis by (simp add: priv_clearTimeouts_def Let_def)
qed

lemma tracked_deactivateCall:
  assumes "timers_tracked c"
  shows "timers_tracked (snd (deactivateCall draw c m fromSelf reason))"
proof (cases "shouldDeleteCall c fromSelf reason")
  case True
  let ?c2 = "(priv_clearTimeouts c)
               \<lparr>terminationReason := Some (case reason of None \<Rightarrow> SELF_USER | Some r \<Rightarrow> r)\<rparr>"
  have "timers_tracked (priv_deleteCall ?c2 m
          (if length (participants c) \<le> (if fromSelf then 1 else 0) then 1 else 0)
          (reason = Some GROUP_CHECK)) = timers_tracked (priv_clearTimeouts c)"
    by (rule tracked_cong) simp_all
  with True tracked_clearTimeouts [OF assms] show ?thesis
    by (simp add: deactivateCall_delete)
next
  case False
  from tracked_clearTimeouts [OF assms]
  have "timers_tracked (scheduleGroupCheck draw (priv_clearTimeouts c))"
    by (rule scheduleGroupCheck_result(2))
  with False tracked_clearTimeouts [OF assms] show ?thesis
    by (simp add: deactivateCall_keep)
qed

lemma tracked_onVerifyGroupCheckTimeout:
  assumes "timers_tracked c"
  shows "timers_tracked (priv_onVerifyGroupCheckTimeout draw c)"
  unfolding priv_onVerifyGroupCheckTimeout_def Let_def
  by (rule tracked_deactivateCall [OF assms])

lemma tracked_setStateTimeout:
  assumes "timers_tracked c"
  shows "timers_tracked (priv_setStateTimeout c isIncoming)"
proof -
  from assms have d: "distinct (map fst (timers c))"
    and b: "\<forall>t\<in>set (timers c). 0 < fst t \<and> fst t \<le> lastTimerId c"
    and k: "\<forall>t\<in>set (groupCheckTimers c). groupCheckTimeoutId c = Some (fst t)"
    by (simp_all add: timers_tracked_def list_all_iff)
  have fresh: "Suc (lastTimerId c) \<notin> fst ` set (timers c)" using b by force
  show ?thesis
    unfolding timers_tracked_def
    using d b k fresh
    by (auto simp: priv_setStateTimeout_def window_setTimeout_def Let_def list_all_iff
        groupCheckTimers_def is_group_check_timer_def)
qed

lemma tracked_state_subscription:
  assumes "timers_tracked c"
  shows "timers_tracked (state_subscription G c s)"
proof -
  from assms have c1: "timers_tracked (priv_clearStateTimeout c)"
    by (rule tracked_clearStateTimeout)
  have ring: "timers_tracked (priv_onStateStartRinging x b)" if "timers_tracked x" for x b
    using that
    by (simp add: priv_onStateStartRinging_def priv_playRingTone_def tracked_setStateTimeout)
  have stop: "timers_tracked (priv_onStateStopRinging G x)" if "timers_tracked x" for x
    using that by (simp add: priv_onStateStopRinging_def priv_stopRingTone_def Let_def)
  have prev: "timers_tracked (x\<lparr>previousState := p\<rparr>) = timers_tracked x" for x p
    by (rule tracked_cong) simp_all
  show ?thesis
    using c1 ring [OF c1] stop [OF c1]
    by (auto simp: state_subscription_def Let_def prev)
qed

lemma tracked_set_state:
  assumes "timers_tracked c"
  shows "timers_tracked (set_state G c s)"
proof (cases "state c = s")
  case True
  with assms show ?thesis by (simp add: set_state_def)
next
  case False
  have "timers_tracked (c\<lparr>state := s\<rparr>) = timers_tracked c" by (rule tracked_cong) simp_all
  with assms have w: "timers_tracked (c\<lparr>state := s\<rparr>)" by simp
  then have d: "timers_tracked (isDeclined_subscription (c\<lparr>state := s\<rparr>) b)" for b
    by (simp add: isDeclined_subscription_def priv_stopRingTone_def Let_def)
  from False show ?thesis
    using tracked_state_subscription [OF w] tracked_state_subscription [OF d]
    by (simp add: set_state_def Let_def)
qed

lemma tracked_initial:
  assumes "timers c = []"
  shows "timers_tracked c"
  using assms by (simp add: timers_tracked_def groupCheckTimers_def)

lemma deactivateCall_keep_group_timers:
  assumes "\<not> shouldDeleteCall c fromSelf reason" and "isGroup c"
  shows "timers (snd (deactivateCall draw c m fromSelf reason)) =
           timers (priv_clearTimeouts c) @
             [(Suc (lastTimerId c),
               if isConnected c
               then (OnSendGroupCheckTimeout (getRandomNumber MINIMUM_TIMEOUT MAXIMUM_TIMEOUT draw),
                     getRandomNumber MINIMUM_TIMEOUT MAXIMUM_TIMEOUT draw * UNITS_IN_MILLIS_SECOND)
               else (OnVerifyGroupCheckTimeout, ACTIVITY_TIMEOUT * UNITS_IN_MILLIS_SECOND))]"
  using assms scheduleGroupCheck_timers [of draw "priv_clearTimeouts c"]
  by (simp add: deactivateCall_keep clearGC_clearTimeouts emit_def)

lemma deactivateCall_keep_group_check_timers:
  assumes "\<not> shouldDeleteCall c fromSelf reason" and "isGroup c" and "timers_tracked c"
  shows "groupCheckTimers (snd (deactivateCall draw c m fromSelf reason)) =
           [(Suc (lastTimerId c),
             if isConnected c
             then (OnSendGroupCheckTimeout (getRandomNumber MINIMUM_TIMEOUT MAXIMUM_TIMEOUT draw),
                   getRandomNumber MINIMUM_TIMEOUT MAXIMUM_TIMEOUT draw * UNITS_IN_MILLIS_SECOND)
             else (OnVerifyGroupCheckTimeout, ACTIVITY_TIMEOUT * UNITS_IN_MILLIS_SECOND))]"
proof -
  from assms(3) have "timers_tracked (priv_clearTimeouts c)" by (rule tracked_clearTimeouts)
  from scheduleGroupCheck_result(1) [OF this, of draw] assms(1,2) show ?thesis
    by (simp add: deactivateCall_keep groupCheckTimers_def emit_def)
qed

text \<open>
  Claim C10. \<open>deactivateCall\<close> resolves with \<open>true\<close> exactly when the number of
  participants is at most 1 for \<open>fromSelf = true\<close> and at most 0 for \<open>fromSelf = false\<close>,
  or the reason is \<open>GROUP_CHECK\<close> (\<open>shouldDeleteCall\<close>). Then it sets the termination
  reason, injects one deactivation event and deletes the call once, and sets no timer:
  the pending timers are the ones that \<open>_clearTimeouts\<close> leaves, and none of them is a
  group-check timer when the entity tracked its timer. Otherwise it resolves with
  \<open>false\<close> and resets the media stream. For a group call it then reschedules the group
  check: it registers one new timer after the ones that \<open>_clearTimeouts\<close> leaves, the send
  timer with a delay of 60 to 90 seconds when the call is connected and the verify timer
  with the delay of 120 seconds otherwise, stores its handle, and when the entity tracked
  its timer this is the one pending group-check timer. For any other call it sets no
  timer.
\<close>

theorem deactivateCall_deletes_iff:
  "fst (deactivateCall draw c m fromSelf reason) = shouldDeleteCall c fromSelf reason \<and>
   (shouldDeleteCall c fromSelf reason \<longrightarrow>
      effects (snd (deactivateCall draw c m fromSelf reason)) =
        effects c @ map FlowClearTimeouts (getFlows c) @
          [InjectDeactivateEvent (m\<lparr>cm_userId := Some (creatingUser_id c)\<rparr>)
             (if reason = Some GROUP_CHECK then INJECTED else WEB_SOCKET)
             (if wasConnected c then COMPLETED else MISSED),
           RepositoryDeleteCall (call_id c)] \<and>
      terminationReason (snd (deactivateCall draw c m fromSelf reason)) =
        Some (case reason of None \<Rightarrow> SELF_USER | Some r \<Rightarrow> r) \<and>
      lastTimerId (snd (deactivateCall draw c m fromSelf reason)) = lastTimerId c \<and>
      timers (snd (deactivateCall draw c m fromSelf reason)) = timers (priv_clearTimeouts c) \<and>
      (timers_tracked c \<longrightarrow>
         groupCheckTimers (snd (deactivateCall draw c m fromSelf reason)) = [])) \<and>
   (\<not> shouldDeleteCall c fromSelf reason \<longrightarrow>
      effects (snd (deactivateCall draw c m fromSelf reason)) =
        effects c @ map FlowClearTimeouts (getFlows c) @ [ResetMediaStream] \<and>
      terminationReason (snd (deactivateCall draw c m fromSelf reason)) = terminationReason c \<and>
      (if isGroup c
       then snd (deactivateCall draw c m fromSelf reason) =
              emit ResetMediaStream (scheduleGroupCheck draw (priv_clearTimeouts c)) \<and>
            groupCheckTimeoutId (snd (deactivateCall draw c m fromSelf reason)) =
              Some (Suc (lastTimerId c)) \<and>
            lastTimerId (snd (deactivateCall draw c m fromSelf reason)) = Suc (lastTimerId c) \<and>
            timers (snd (deactivateCall draw c m fromSelf reason)) =
              timers (priv_clearTimeouts c) @
                [(Suc (lastTimerId c),
                  if isConnected c
                  then OnSendGroupCheckTimeout (getRandomNumber 60 90 draw)
                  else OnVerifyGroupCheckTimeout,
                  if isConnected c then getRandomNumber 60 90 draw * 1000 else 120 * 1000)] \<and>
            60 \<le> getRandomNumber 60 90 draw \<and> getRandomNumber 60 90 draw \<le> 90 \<and>
            (timers_tracked c \<longrightarrow>
               groupCheckTimers (snd (deactivateCall draw c m fromSelf reason)) =
                 [(Suc (lastTimerId c),
                   if isConnected c
                   then OnSendGroupCheckTimeout (getRandomNumber 60 90 draw)
                   else OnVerifyGroupCheckTimeout,
                   if isConnected c then getRandomNumber 60 90 draw * 1000 else 120 * 1000)])
       else lastTimerId (snd (deactivateCall draw c m fromSelf reason)) = lastTimerId c \<and>
            timers (snd (deactivateCall draw c m fromSelf reason)) = timers (priv_clearTimeouts c) \<and>
            set (timers (snd (deactivateCall draw c m fromSelf reason))) \<subseteq> set (timers c)))"
proof (cases "shouldDeleteCall c fromSelf reason")
  case True
  have "timers_tracked c \<Longrightarrow> groupCheckTimers (priv_clearTimeouts c) = []"
    by (rule clearTimeouts_no_gc)
  with True show ?thesis by (simp add: deactivateCall_delete groupCheckTimers_def)
next
  case False
  have sub: "set (timers (priv_clearTimeouts c)) \<subseteq> set (timers c)"
    by (rule clearTimeouts_timers_subset)
  have r: "60 \<le> getRandomNumber 60 90 draw \<and> getRandomNumber 60 90 draw \<le> 90"
    using getRandomNumber_range [of draw] by (simp add: MINIMUM_TIMEOUT_def MAXIMUM_TIMEOUT_def)
  show ?thesis
  proof (cases "isGroup c")
    case ng: False
    with False sub show ?thesis by (simp add: deactivateCall_keep emit_def)
  next
    case g: True
    have t: "timers (snd (deactivateCall draw c m fromSelf reason)) =
              timers (priv_clearTimeouts c) @
                [(Suc (lastTimerId c),
                  if isConnected c
                  then OnSendGroupCheckTimeout (getRandomNumber 60 90 draw)
                  else OnVerifyGroupCheckTimeout,
                  if isConnected c then getRandomNumber 60 90 draw * 1000 else 120 * 1000)]"
      using deactivateCall_keep_group_timers [OF False g, of draw m]
      by (simp add: MINIMUM_TIMEOUT_def MAXIMUM_TIMEOUT_def UNITS_IN_MILLIS_SECOND_def
          ACTIVITY_TIMEOUT_def)
    have gc: "groupCheckTimers (snd (deactivateCall draw c m fromSelf reason)) =
                 [(Suc (lastTimerId c),
                   if isConnected c
                   then OnSendGroupCheckTimeout (getRandomNumber 60 90 draw)
                   else OnVerifyGroupCheckTimeout,
                   if isConnected c then getRandomNumber 60 90 draw * 1000 else 120 * 1000)]"
      if "timers_tracked c"
      using deactivateCall_keep_group_check_timers [OF False g that, of draw m]
      by (simp add: MINIMUM_TIMEOUT_def MAXIMUM_TIMEOUT_def UNITS_IN_MILLIS_SECOND_def
          ACTIVITY_TIMEOUT_def)
    have rest: "effects (snd (deactivateCall draw c m fromSelf reason)) =
        effects c @ map FlowClearTimeouts (getFlows c) @ [ResetMediaStream]"
      "terminationReason (snd (deactivateCall draw c m fromSelf reason)) = terminationReason c"
      "snd (deactivateCall draw c m fromSelf reason) =
              emit ResetMediaStream (scheduleGroupCheck draw (priv_clearTimeouts c))"
      "groupCheckTimeoutId (snd (deactivateCall draw c m fromSelf reason)) =
              Some (Suc (lastTimerId c))"
      "lastTimerId (snd (deactivateCall draw c m fromSelf reason)) = Suc (lastTimerId c)"
      using False g
      by (auto simp: deactivateCall_keep emit_def scheduleGroupCheck_def
          priv_setSendGroupCheckTimeout_def priv_setVerifyGroupCheckTimeout_def
          window_setTimeout_def Let_def)
    have fst: "fst (deactivateCall draw c m fromSelf reason) = shouldDeleteCall c fromSelf reason"
      using False by (simp add: deactivateCall_keep)
    show ?thesis
      unfolding if_P [OF g]
      using False fst rest t gc r by blast
  qed
qed

theorem deactivateCall_deletes_iff_witness:
  "shouldDeleteCall example_call_two False (Some GROUP_CHECK) \<and>
   timers_tracked example_call_two \<and>
   fst (deactivateCall 7 example_call_two example_message False (Some GROUP_CHECK)) \<and>
   groupCheckTimers
     (snd (deactivateCall 7 example_call_two example_message False (Some GROUP_CHECK))) = [] \<and>
   shouldDeleteCall (example_call\<lparr>participants := [new_ParticipantEntity bob]\<rparr>) True None \<and>
   fst (deactivateCall 7 (example_call\<lparr>participants := [new_ParticipantEntity bob]\<rparr>)
          example_message True None) \<and>
   \<not> shouldDeleteCall example_call_two True None \<and>
   \<not> fst (deactivateCall 7 example_call_two example_message True None) \<and>
   effects (snd (deactivateCall 7 example_call_two example_message True None)) = [ResetMediaStream] \<and>
   groupCheckTimeoutId (snd (deactivateCall 7 example_call_two example_message True None)) = Some 2 \<and>
   groupCheckTimers (snd (deactivateCall 7 example_call_two example_message True None)) =
     [(2, OnVerifyGroupCheckTimeout, 120000)]"
proof -
  have a: "shouldDeleteCall example_call_two False (Some GROUP_CHECK)"
    by (simp add: shouldDeleteCall_def)
  have b: "\<not> shouldDeleteCall example_call_two True None"
    by (simp add: shouldDeleteCall_def example_call_two_def example_call_def)
  have h: "timers_tracked example_call_two"
    by (simp add: timers_tracked_def groupCheckTimers_def is_group_check_timer_def
        example_call_two_def example_call_def)
  have f: "getFlows example_call_two = []"
    by (simp add: getFlows_def example_call_two_def example_call_def new_ParticipantEntity_def)
  have g: "isGroup example_call_two" "effects example_call_two = []"
    "lastTimerId example_call_two = 1" "\<not> isConnected example_call_two"
    by (simp_all add: example_call_two_def example_call_def)
  from deactivateCall_deletes_iff [of 7 example_call_two example_message False "Some GROUP_CHECK"] a h
  have 1: "fst (deactivateCall 7 example_call_two example_message False (Some GROUP_CHECK))"
    "groupCheckTimers
       (snd (deactivateCall 7 example_call_two example_message False (Some GROUP_CHECK))) = []"
    by simp_all
  note k = deactivateCall_deletes_iff [of 7 example_call_two example_message True None]
  from k b have nf: "\<not> fst (deactivateCall 7 example_call_two example_message True None)"
    and e: "effects (snd (deactivateCall 7 example_call_two example_message True None)) =
              effects example_call_two @ map FlowClearTimeouts (getFlows example_call_two) @
                [ResetMediaStream]"
    and r: "if isGroup example_call_two
       then snd (deactivateCall 7 example_call_two example_message True None) =
              emit ResetMediaStream (scheduleGroupCheck 7 (priv_clearTimeouts example_call_two)) \<and>
            groupCheckTimeoutId (snd (deactivateCall 7 example_call_two example_message True None)) =
              Some (Suc (lastTimerId example_call_two)) \<and>
            lastTimerId (snd (deactivateCall 7 example_call_two example_message True None)) =
              Suc (lastTimerId example_call_two) \<and>
            timers (snd (deactivateCall 7 example_call_two example_message True None)) =
              timers (priv_clearTimeouts example_call_two) @
                [(Suc (lastTimerId example_call_two),
                  if isConnected example_call_two
                  then OnSendGroupCheckTimeout (getRandomNumber 60 90 7)
                  else OnVerifyGroupCheckTimeout,
                  if isConnected example_call_two then getRandomNumber 60 90 7 * 1000
                  else 120 * 1000)] \<and>
            60 \<le> getRandomNumber 60 90 7 \<and> getRandomNumber 60 90 7 \<le> 90 \<and>
            (timers_tracked example_call_two \<longrightarrow>
               groupCheckTimers (snd (deactivateCall 7 example_call_two example_message True None)) =
                 [(Suc (lastTimerId example_call_two),
                   if isConnected example_call_two
                   then OnSendGroupCheckTimeout (getRandomNumber 60 90 7)
                   else OnVerifyGroupCheckTimeout,
                   if isConnected example_call_two then getRandomNumber 60 90 7 * 1000
                   else 120 * 1000)])
       else lastTimerId (snd (deactivateCall 7 example_call_two example_message True None)) =
              lastTimerId example_call_two \<and>
            timers (snd (deactivateCall 7 example_call_two example_message True None)) =
              timers (priv_clearTimeouts example_call_two) \<and>
            set (timers (snd (deactivateCall 7 example_call_two example_message True None))) \<subseteq>
              set (timers example_call_two)"
    by blast+
  from r have gid: "groupCheckTimeoutId
        (snd (deactivateCall 7 example_call_two example_message True None)) =
          Some (Suc (lastTimerId example_call_two))"
    and gct: "groupCheckTimers (snd (deactivateCall 7 example_call_two example_message True None)) =
                 [(Suc (lastTimerId example_call_two),
                   if isConnected example_call_two
                   then OnSendGroupCheckTimeout (getRandomNumber 60 90 7)
                   else OnVerifyGroupCheckTimeout,
                   if isConnected example_call_two then getRandomNumber 60 90 7 * 1000
                   else 120 * 1000)]"
    unfolding if_P [OF g(1)] using h by blast+
  from nf e gid gct f g
  have 2: "\<not> fst (deactivateCall 7 example_call_two example_message True None)"
   "effects (snd (deactivateCall 7 example_call_two example_message True None)) = [ResetMediaStream]"
   "groupCheckTimeoutId (snd (deactivateCall 7 example_call_two example_message True None)) = Some 2"
   "groupCheckTimers (snd (deactivateCall 7 example_call_two example_message True None)) =
      [(2, OnVerifyGroupCheckTimeout, 120000)]"
    by simp_all
  have o: "shouldDeleteCall (example_call\<lparr>participants := [new_ParticipantEntity bob]\<rparr>) True None"
    by (simp add: shouldDeleteCall_def)
  from deactivateCall_deletes_iff
         [of 7 "example_call\<lparr>participants := [new_ParticipantEntity bob]\<rparr>" example_message True None] o
  have 3: "fst (deactivateCall 7 (example_call\<lparr>participants := [new_ParticipantEntity bob]\<rparr>)
                  example_message True None)"
    by simp
  from a b h o 1 2 3 show ?thesis by simp
qed

lemma updateRemoteState_fields [simp]:
  "participants (priv_updateRemoteState c) = participants c"
  "state (priv_updateRemoteState c) = state c"
  "selfUser_id (priv_updateRemoteState c) = selfUser_id c"
  by (simp_all add: priv_updateRemoteState_def Let_def split: prod.splits)

lemma emit_fields [simp]:
  "participants (emit e c) = participants c"
  "state (emit e c) = state c"
  "selfUser_id (emit e c) = selfUser_id c"
  "effects (emit e c) = effects c @ [e]"
  "timers (emit e c) = timers c"
  "lastTimerId (emit e c) = lastTimerId c"
  "groupCheckTimeoutId (emit e c) = groupCheckTimeoutId c"
  "stateTimeout (emit e c) = stateTimeout c"
  "previousState (emit e c) = previousState c"
  "isGroup (emit e c) = isGroup c"
  by (simp_all add: emit_def)

lemma set_participants_fields [simp]:
  "participants (set_participants c ps) = ps"
  "state (set_participants c ps) = state c"
  "selfUser_id (set_participants c ps) = selfUser_id c"
  by (simp_all add: set_participants_def Let_def)

lemma interruptedParticipants_remove_fields [simp]:
  "participants (interruptedParticipants_remove c u) = participants c"
  "state (interruptedParticipants_remove c u) = state c"
  "selfUser_id (interruptedParticipants_remove c u) = selfUser_id c"
  by (simp_all add: interruptedParticipants_remove_def networkInterruption_subscription_def Let_def)

lemma updateParticipantState_state [simp]:
  "state (snd (priv_updateParticipantState env c i n m)) = state c"
  "selfUser_id (snd (priv_updateParticipantState env c i n m)) = selfUser_id c"
  by (simp_all add: priv_updateParticipantState_def Let_def split: prod.splits sum.splits)

lemma updateParticipant_state [simp]:
  "state (snd (priv_updateParticipant env c i n m)) = state c"
  "selfUser_id (snd (priv_updateParticipant env c i n m)) = selfUser_id c"
  by (simp_all add: priv_updateParticipant_def split: sum.splits)

lemma addParticipant_state [simp]:
  "state (snd (priv_addParticipant env c u n m)) = state c"
  "selfUser_id (snd (priv_addParticipant env c u n m)) = selfUser_id c"
  by (simp_all add: priv_addParticipant_def Let_def split: sum.splits)

lemma updateParticipant_state_pair:
  "priv_updateParticipant env c i n m = (r, c1) \<Longrightarrow>
     state c1 = state c \<and> selfUser_id c1 = selfUser_id c"
  by (metis snd_conv updateParticipant_state)

lemma addOrUpdateParticipant_state [simp]:
  "state (snd (addOrUpdateParticipant env c u n m)) = state c"
  "selfUser_id (snd (addOrUpdateParticipant env c u n m)) = selfUser_id c"
  by (auto simp: addOrUpdateParticipant_def getParticipantById_def Let_def
      split: prod.splits sum.splits dest!: updateParticipant_state_pair)

lemma ids_update_same:
  assumes "i < length ps" "p_id q = p_id (ps ! i)"
  shows "map p_id (ps[i := q]) = map p_id ps"
  using assms by (simp add: map_update list_update_same_conv)

lemma updateParticipantState_ids:
  assumes "collaborators_keep_ids env" "i < length (participants c)"
  shows "participant_ids (snd (priv_updateParticipantState env c i n m)) = participant_ids c"
proof -
  let ?p = "participants c ! i"
  obtain r p1 where u: "(case m of None \<Rightarrow> (Inr False, ?p) | Some x \<Rightarrow> updateState env ?p x) = (r, p1)"
    by (cases "case m of None \<Rightarrow> (Inr False, ?p) | Some x \<Rightarrow> updateState env ?p x")
  have id1: "p_id p1 = p_id ?p"
  proof (cases m)
    case None with u show ?thesis by simp
  next
    case (Some x)
    with u have "p1 = snd (updateState env ?p x)" by simp
    with assms(1) show ?thesis by (simp add: collaborators_keep_ids_def)
  qed
  have id2: "p_id (startNegotiation env p1) = p_id ?p"
    using assms(1) id1 by (simp add: collaborators_keep_ids_def)
  have m1: "map p_id ((participants c)[i := p1]) = map p_id (participants c)"
    using assms(2) id1 by (rule ids_update_same)
  have m2: "map p_id ((participants c)[i := p1, i := startNegotiation env p1]) = map p_id (participants c)"
    using assms(2) id2 by (simp add: ids_update_same)
  show ?thesis
    using u m1 m2
    by (simp add: priv_updateParticipantState_def participant_ids_def Let_def
        split: sum.splits)
qed

lemma verifyClientId_id: "verifyClientId p cid = Inr q \<Longrightarrow> p_id q = p_id p"
  by (auto simp: verifyClientId_def split: option.splits if_splits)

lemma updateParticipant_ids:
  assumes "collaborators_keep_ids env" "i < length (participants c)"
  shows "participant_ids (snd (priv_updateParticipant env c i n m)) = participant_ids c"
proof (cases "hasClientId m")
  case False
  then show ?thesis
    using updateParticipantState_ids [OF assms] by (simp add: priv_updateParticipant_def)
next
  case True
  let ?v = "verifyClientId (participants c ! i) (the (cm_clientId (the m)))"
  show ?thesis
  proof (cases ?v)
    case (Inl e)
    with True show ?thesis by (simp add: priv_updateParticipant_def)
  next
    case (Inr p1)
    let ?c1 = "c\<lparr>participants := (participants c)[i := p1]\<rparr>"
    have "p_id p1 = p_id (participants c ! i)" using Inr by (rule verifyClientId_id)
    then have a: "participant_ids ?c1 = participant_ids c"
      using assms(2) by (simp add: participant_ids_def ids_update_same)
    have "i < length (participants ?c1)" using assms(2) by simp
    from updateParticipantState_ids [OF assms(1) this]
    have "participant_ids (snd (priv_updateParticipantState env ?c1 i n m)) = participant_ids ?c1" .
    with a True Inr show ?thesis by (simp add: priv_updateParticipant_def)
  qed
qed

lemma addParticipant_ids:
  assumes "collaborators_keep_ids env"
  shows "set (participant_ids (snd (priv_addParticipant env c userId n m))) \<subseteq>
           set (participant_ids c) \<union> {u. userId = Some u \<and> u \<noteq> selfUser_id c}"
proof (cases "userId = Some (selfUser_id c)")
  case True
  then show ?thesis by (simp add: priv_addParticipant_def)
next
  case False
  show ?thesis
  proof (cases "get_user_by_id env userId")
    case (Inl e)
    with False show ?thesis by (simp add: priv_addParticipant_def)
  next
    case (Inr userEntity)
    let ?c1 = "set_participants c (participants c @ [new_ParticipantEntity userEntity])"
    have k: "userId = Some (user_id userEntity)"
      using assms Inr by (simp add: collaborators_keep_ids_def)
    have "length (participants c) < length (participants ?c1)" by simp
    from updateParticipantState_ids [OF assms this]
    have "participant_ids (snd (priv_updateParticipantState env ?c1 (length (participants c)) n m))
            = participant_ids ?c1" .
    with False Inr k show ?thesis
      by (auto simp: priv_addParticipant_def participant_ids_def new_ParticipantEntity_def Let_def)
  qed
qed

lemma addOrUpdateParticipant_ids:
  assumes "collaborators_keep_ids env"
  shows "set (participant_ids (snd (addOrUpdateParticipant env c userId n m))) \<subseteq>
           set (participant_ids c) \<union> {u. userId = Some u \<and> u \<noteq> selfUser_id c}"
proof -
  let ?found = "getParticipantById_from 0 (participants c) userId"
  show ?thesis
  proof (cases ?found)
    case (Inl e)
    show ?thesis
      using Inl addParticipant_ids [OF assms, of c userId n m]
      by (simp add: addOrUpdateParticipant_def getParticipantById_def Let_def)
  next
    case (Inr ip)
    obtain i p where ip: "ip = (i, p)" by (cases ip)
    from getParticipantById_from_Inr [of 0 "participants c" userId i p] Inr ip
    have i: "i < length (participants c)" by simp
    obtain r c1 where u: "priv_updateParticipant env c i n m = (r, c1)"
      by (cases "priv_updateParticipant env c i n m")
    from updateParticipant_ids [OF assms i, of n m] u
    have a: "participant_ids c1 = participant_ids c" by simp
    have s: "selfUser_id c1 = selfUser_id c"
      using updateParticipant_state(2) [of env c i n m] u by simp
    from addParticipant_ids [OF assms, of c1 userId n m] a s
    have b: "set (participant_ids (snd (priv_addParticipant env c1 userId n m))) \<subseteq>
           set (participant_ids c) \<union> {u. userId = Some u \<and> u \<noteq> selfUser_id c}" by simp
    show ?thesis
      using Inr ip u a b
      by (auto simp: addOrUpdateParticipant_def getParticipantById_def Let_def split: sum.splits)
  qed
qed

text \<open>
  Claim C3. When no participant has the given user id and the id is the one of the self
  user, \<open>addOrUpdateParticipant\<close> rejects with the \<open>WRONG_STATE\<close> call error and leaves
  the call entity, and so the participants, unchanged. Consequently the self user never
  becomes a participant: when the collaborators keep the ids (the user repository
  returns the user it is asked for, and \<open>updateState\<close> and \<open>startNegotiation\<close> leave the id
  of a participant alone) and the self user is not among the participants, it is not
  among them after \<open>addOrUpdateParticipant\<close> either, whatever the arguments.
\<close>

theorem addOrUpdateParticipant_rejects_self:
  "((\<forall>p\<in>set (participants c). Some (p_id p) \<noteq> userId) \<and> userId = Some (selfUser_id c) \<longrightarrow>
      addOrUpdateParticipant env c userId negotiate callMessageEntity =
        (Inl (CallError WRONG_STATE ''Self user should not be added as call participant''), c)) \<and>
   (collaborators_keep_ids env \<and> selfUser_id c \<notin> set (participant_ids c) \<longrightarrow>
      selfUser_id c \<notin> set (participant_ids
                             (snd (addOrUpdateParticipant env c userId negotiate callMessageEntity))))"
proof (intro conjI impI)
  assume a: "(\<forall>p\<in>set (participants c). Some (p_id p) \<noteq> userId) \<and> userId = Some (selfUser_id c)"
  then have "getParticipantById_from 0 (participants c) userId =
               Inl (CallError NOT_FOUND ''No participant found for user ID'')"
    using getParticipantById_from_absent [of "participants c" userId 0] by blast
  with a show "addOrUpdateParticipant env c userId negotiate callMessageEntity =
        (Inl (CallError WRONG_STATE ''Self user should not be added as call participant''), c)"
    by (simp add: addOrUpdateParticipant_def getParticipantById_def isNotFound_def
        priv_addParticipant_def)
next
  assume b: "collaborators_keep_ids env \<and> selfUser_id c \<notin> set (participant_ids c)"
  with addOrUpdateParticipant_ids [of env c userId negotiate callMessageEntity]
  show "selfUser_id c \<notin> set (participant_ids
                             (snd (addOrUpdateParticipant env c userId negotiate callMessageEntity)))"
    by blast
qed

theorem addOrUpdateParticipant_rejects_self_witness:
  "list_all (\<lambda>p. Some (p_id p) \<noteq> Some (selfUser_id example_call_two))
     (participants example_call_two) \<and>
   addOrUpdateParticipant example_collaborators example_call_two
       (Some (selfUser_id example_call_two)) True None =
     (Inl (CallError WRONG_STATE ''Self user should not be added as call participant''),
      example_call_two) \<and>
   collaborators_keep_ids example_collaborators \<and>
   selfUser_id example_call_two \<notin> set (participant_ids example_call_two) \<and>
   selfUser_id example_call_two \<notin>
     set (participant_ids
            (snd (addOrUpdateParticipant example_collaborators example_call_two (Some ''carol'')
                    True None)))"
proof -
  have ps: "participants example_call_two = [new_ParticipantEntity alice, new_ParticipantEntity bob]"
    "selfUser_id example_call_two = ''self''"
    by (simp_all add: example_call_two_def example_call_def)
  have ids: "p_id (new_ParticipantEntity alice) = ''alice''" "p_id (new_ParticipantEntity bob) = ''bob''"
    by (simp_all add: new_ParticipantEntity_def alice_def bob_def)
  have a: "\<forall>p\<in>set (participants example_call_two). Some (p_id p) \<noteq> Some (selfUser_id example_call_two)"
    by (simp add: ps ids)
  have k: "collaborators_keep_ids example_collaborators"
    by (auto simp: collaborators_keep_ids_def example_collaborators_def split: option.splits)
  have n: "selfUser_id example_call_two \<notin> set (participant_ids example_call_two)"
    by (simp add: participant_ids_def ps ids)
  from addOrUpdateParticipant_rejects_self
         [of example_call_two "Some (selfUser_id example_call_two)" example_collaborators True None] a
  have 1: "addOrUpdateParticipant example_collaborators example_call_two
       (Some (selfUser_id example_call_two)) True None =
     (Inl (CallError WRONG_STATE ''Self user should not be added as call participant''),
      example_call_two)" by blast
  from addOrUpdateParticipant_rejects_self
         [of example_call_two "Some ''carol''" example_collaborators True None] k n
  have 2: "selfUser_id example_call_two \<notin>
     set (participant_ids
            (snd (addOrUpdateParticipant example_collaborators example_call_two (Some ''carol'')
                    True None)))" by blast
  from a have a': "list_all (\<lambda>p. Some (p_id p) \<noteq> Some (selfUser_id example_call_two))
     (participants example_call_two)"
    by (simp add: list_all_iff)
  from a' 1 k n 2 show ?thesis by blast
qed

lemma set_state_state [simp]: "state (set_state G c s) = s"
  by (simp add: set_state_def isDeclined_subscription_def state_subscription_def priv_onStateStartRinging_def
      priv_setStateTimeout_def priv_playRingTone_def priv_onStateStopRinging_def
      priv_stopRingTone_def window_setTimeout_def Let_def
      priv_clearStateTimeout_def window_clearTimeout_def split: option.splits)

lemma set_state_fields [simp]:
  "isGroup (set_state G c s) = isGroup c"
  "sessionId (set_state G c s) = sessionId c"
  "call_id (set_state G c s) = call_id c"
  "selfUser_id (set_state G c s) = selfUser_id c"
  "participating_user_ids (set_state G c s) = participating_user_ids c"
  by (simp_all add: set_state_def isDeclined_subscription_def state_subscription_def
      priv_onStateStartRinging_def priv_setStateTimeout_def priv_playRingTone_def
      priv_onStateStopRinging_def priv_stopRingTone_def window_setTimeout_def Let_def emit_def
      priv_clearStateTimeout_def window_clearTimeout_def split: option.splits)

lemma joinGroupCall_state [simp]: "state (priv_joinGroupCall c mt) = state c"
  by (simp add: priv_joinGroupCall_def sendCallMessage_def Let_def)

lemma join1to1Call_state [simp]: "state (priv_join1to1Call env c) = state c"
  by (simp add: priv_join1to1Call_def Let_def)

lemma joinGroupCall_effects:
  "effects (priv_joinGroupCall c mt) =
     effects c @
       [SendCallMessage
          (buildGroupStart (state c \<noteq> OUTGOING) (sessionId c)
             (CreatePropSync (CreatePayload (call_id c) (selfUser_id c) None None)
                (Some (mt = Some AUDIO_VIDEO))))]"
  by (cases mt) (simp_all add: priv_joinGroupCall_def sendCallMessage_def Let_def)

text \<open>
  Claim C2. After \<open>joinCall\<close> the state is \<open>CONNECTING\<close> when the state before is in the
  group \<open>CAN_CONNECT\<close>, and is the state before otherwise: \<open>joinCall\<close> moves the call into
  \<open>CONNECTING\<close> from the states of that group only, whatever the media type, the kind of
  call and the collaborators. The join flow is not bound to that group: \<open>joinCall\<close> runs
  it from every state. For a group call it sends the \<open>GROUP_START\<close> message, as a response
  unless the state it reads is \<open>OUTGOING\<close>; for a 1:1 call it adds or updates the first
  participating user of the conversation, with negotiation.
\<close>

theorem joinCall_connecting_iff_canConnect:
  "state (joinCall G env c mediaType) = (if canConnectState G c then CONNECTING else state c) \<and>
   (isGroup c \<longrightarrow>
      effects (joinCall G env c mediaType) =
        effects (if canConnectState G c then set_state G c CONNECTING else c) @
          [SendCallMessage
             (buildGroupStart (canConnectState G c \<or> state c \<noteq> OUTGOING) (sessionId c)
                (CreatePropSync (CreatePayload (call_id c) (selfUser_id c) None None)
                   (Some (mediaType = Some AUDIO_VIDEO))))]) \<and>
   (\<not> isGroup c \<longrightarrow>
      joinCall G env c mediaType =
        snd (addOrUpdateParticipant env
               (if canConnectState G c then set_state G c CONNECTING else c)
               (case participating_user_ids c of [] \<Rightarrow> None | u # rest \<Rightarrow> Some u) True None))"
proof -
  have st: "state (joinCall G env c mediaType) =
              (if canConnectState G c then CONNECTING else state c)"
    by (simp add: joinCall_def Let_def)
  have grp: "effects (joinCall G env c mediaType) =
        effects (if canConnectState G c then set_state G c CONNECTING else c) @
          [SendCallMessage
             (buildGroupStart (canConnectState G c \<or> state c \<noteq> OUTGOING) (sessionId c)
                (CreatePropSync (CreatePayload (call_id c) (selfUser_id c) None None)
                   (Some (mediaType = Some AUDIO_VIDEO))))]"
    if "isGroup c"
    using that by (simp add: joinCall_def Let_def joinGroupCall_effects)
  have one: "joinCall G env c mediaType =
        snd (addOrUpdateParticipant env
               (if canConnectState G c then set_state G c CONNECTING else c)
               (case participating_user_ids c of [] \<Rightarrow> None | u # rest \<Rightarrow> Some u) True None)"
    if "\<not> isGroup c"
    using that by (simp add: joinCall_def Let_def priv_join1to1Call_def)
  from st grp one show ?thesis by blast
qed

theorem joinCall_connecting_iff_canConnect_witness:
  "canConnectState example_groups (example_call\<lparr>state := INCOMING\<rparr>) \<and>
   isGroup (example_call\<lparr>state := INCOMING\<rparr>) \<and>
   state (joinCall example_groups example_collaborators
            (example_call\<lparr>state := INCOMING\<rparr>) (Some AUDIO)) = CONNECTING \<and>
   last (effects (joinCall example_groups example_collaborators
                    (example_call\<lparr>state := INCOMING\<rparr>) (Some AUDIO))) =
     SendCallMessage
       (buildGroupStart True (Some ''session'')
          (CreatePropSync (CreatePayload ''conversation'' ''self'' None None) (Some False))) \<and>
   \<not> canConnectState example_groups (example_call\<lparr>state := DISCONNECTING, isGroup := False\<rparr>) \<and>
   \<not> isGroup (example_call\<lparr>state := DISCONNECTING, isGroup := False\<rparr>) \<and>
   state (joinCall example_groups example_collaborators
            (example_call\<lparr>state := DISCONNECTING, isGroup := False\<rparr>) None) = DISCONNECTING \<and>
   joinCall example_groups example_collaborators
     (example_call\<lparr>state := DISCONNECTING, isGroup := False\<rparr>) None =
     snd (addOrUpdateParticipant example_collaborators
            (example_call\<lparr>state := DISCONNECTING, isGroup := False\<rparr>) (Some ''alice'') True None)"
proof -
  let ?i = "example_call\<lparr>state := INCOMING\<rparr>"
  let ?d = "example_call\<lparr>state := DISCONNECTING, isGroup := False\<rparr>"
  have a: "canConnectState example_groups ?i"
    by (simp add: canConnectState_def example_groups_def)
  have b: "\<not> canConnectState example_groups ?d"
    by (simp add: canConnectState_def example_groups_def)
  have g: "isGroup ?i" "\<not> isGroup ?d" by (simp_all add: example_call_def)
  have f: "sessionId ?i = Some ''session''" "call_id ?i = ''conversation''"
    "selfUser_id ?i = ''self''" "participating_user_ids ?d = [''alice'', ''bob'']"
    "state ?d = DISCONNECTING"
    by (simp_all add: example_call_def)
  note i = joinCall_connecting_iff_canConnect
             [of example_groups example_collaborators ?i "Some AUDIO"]
  note d = joinCall_connecting_iff_canConnect
             [of example_groups example_collaborators ?d None]
  from i a have 1: "state (joinCall example_groups example_collaborators ?i (Some AUDIO)) = CONNECTING"
    by simp
  from i a g(1) have "effects (joinCall example_groups example_collaborators ?i (Some AUDIO)) =
      effects (set_state example_groups ?i CONNECTING) @
        [SendCallMessage
           (buildGroupStart True (sessionId ?i)
              (CreatePropSync (CreatePayload (call_id ?i) (selfUser_id ?i) None None)
                 (Some False)))]"
    by simp
  then have 2: "last (effects (joinCall example_groups example_collaborators ?i (Some AUDIO))) =
     SendCallMessage
       (buildGroupStart True (Some ''session'')
          (CreatePropSync (CreatePayload ''conversation'' ''self'' None None) (Some False)))"
    unfolding f by simp
  from d b f(5) have 3: "state (joinCall example_groups example_collaborators ?d None) = DISCONNECTING"
    by simp
  from d b g(2) have "joinCall example_groups example_collaborators ?d None =
     snd (addOrUpdateParticipant example_collaborators ?d
            (case participating_user_ids ?d of [] \<Rightarrow> None | u # rest \<Rightarrow> Some u) True None)"
    by simp
  then have 4: "joinCall example_groups example_collaborators ?d None =
     snd (addOrUpdateParticipant example_collaborators ?d (Some ''alice'') True None)"
    unfolding f by simp
  from a b g 1 2 3 4 show ?thesis by blast
qed

text \<open>
  An outgoing group call is not in a state of the group \<open>CAN_CONNECT\<close>; \<open>joinCall\<close> leaves
  the state at \<open>OUTGOING\<close> and joins: it sends the \<open>GROUP_START\<close> message.
\<close>

theorem joinCall_joins_from_outgoing:
  "\<not> canConnectState example_groups (example_call\<lparr>state := OUTGOING\<rparr>) \<and>
   state (joinCall example_groups example_collaborators (example_call\<lparr>state := OUTGOING\<rparr>) None) =
     OUTGOING \<and>
   effects (joinCall example_groups example_collaborators (example_call\<lparr>state := OUTGOING\<rparr>) None) =
     [SendCallMessage
        (buildGroupStart False (Some ''session'')
           (CreatePropSync (CreatePayload ''conversation'' ''self'' None None) (Some False)))]"
  by (simp add: joinCall_def canConnectState_def example_groups_def example_call_def
      priv_joinGroupCall_def sendCallMessage_def emit_def Let_def)

lemma willChangeToDegraded_iff:
  "fst (priv_willChangeToDegraded conv w) =
     (verification_state conv = STATE_VERIFIED \<and> is_verified conv = Some False)"
  by (auto simp: priv_willChangeToDegraded_def Let_def)

text \<open>
  Claim C9. When \<open>_willChangeToDegraded\<close> reports that the conversation changes to the
  degraded state (its state is \<open>VERIFIED\<close> and the conversation is not verified) and the
  list of affected user ids is empty, \<open>_checkChangeToDegraded\<close> throws the error
  ``Conversation degraded without affected users'', leaves the verification state at
  \<open>VERIFIED\<close> (the conversation is as before the call), and injects no event.
\<close>

theorem checkChangeToDegraded_without_users:
  assumes "fst (priv_willChangeToDegraded conversationEntity (type \<noteq> TYPE_UNVERIFIED))"
  shows "priv_checkChangeToDegraded currentTimestamp uuid conversationEntity injected [] type =
           (Inl (Error ''Conversation degraded without affected users''),
            conversationEntity\<lparr>verification_state := STATE_VERIFIED\<rparr>, injected) \<and>
         conversationEntity\<lparr>verification_state := STATE_VERIFIED\<rparr> = conversationEntity"
proof -
  from assms have v: "verification_state conversationEntity = STATE_VERIFIED"
    and u: "is_verified conversationEntity = Some False"
    by (simp_all add: willChangeToDegraded_iff)
  from v have same: "conversationEntity\<lparr>verification_state := STATE_VERIFIED\<rparr> = conversationEntity"
    by simp
  have "priv_willChangeToDegraded conversationEntity (type \<noteq> TYPE_UNVERIFIED) =
          (True, conversationEntity
                   \<lparr>verification_state :=
                      (if type \<noteq> TYPE_UNVERIFIED then STATE_DEGRADED else STATE_UNVERIFIED)\<rparr>)"
    using v u by (simp add: priv_willChangeToDegraded_def Let_def)
  then have "priv_checkChangeToDegraded currentTimestamp uuid conversationEntity injected [] type =
           (Inl (Error ''Conversation degraded without affected users''),
            conversationEntity\<lparr>verification_state := STATE_VERIFIED\<rparr>, injected)"
    by (simp add: priv_checkChangeToDegraded_def Let_def)
  with same show ?thesis by simp
qed

theorem checkChangeToDegraded_without_users_witness:
  "fst (priv_willChangeToDegraded example_conversation (TYPE_NEW_DEVICE \<noteq> TYPE_UNVERIFIED)) \<and>
   priv_checkChangeToDegraded 1000 ''uuid'' example_conversation [] [] TYPE_NEW_DEVICE =
     (Inl (Error ''Conversation degraded without affected users''), example_conversation, [])"
proof -
  have h: "fst (priv_willChangeToDegraded example_conversation (TYPE_NEW_DEVICE \<noteq> TYPE_UNVERIFIED))"
    by (simp add: priv_willChangeToDegraded_def example_conversation_def)
  from checkChangeToDegraded_without_users [OF h, of 1000 "''uuid''" "[]"] h
  show ?thesis by simp
qed



lemma executeOnConnectivity_fields [simp]:
  "queueState (executeOnConnectivity b) = queueState b"
  "requestQueue (executeOnConnectivity b) = requestQueue b"
  "accessToken (executeOnConnectivity b) = accessToken b"
  by (simp_all add: executeOnConnectivity_def Let_def split: option.splits)




subsection \<open>Rounding to a double\<close>

lemma round_half_even_error: "\<bar>of_int (round_half_even x) - x\<bar> \<le> 1 / 2"
proof -
  have "0 \<le> x - of_int \<lfloor>x\<rfloor>" "x - of_int \<lfloor>x\<rfloor> < 1" by linarith+
  then show ?thesis by (auto simp: round_half_even_def Let_def abs_le_iff)
qed

lemma round_half_even_of_int [simp]: "round_half_even (of_int k) = k"
  by (simp add: round_half_even_def)

lemma binary_exponent_bounds:
  assumes "0 < x"
  shows "2 powi binary_exponent x \<le> x \<and> x < 2 powi (binary_exponent x + 1)"
proof (cases "1 \<le> x")
  case True
  let ?m = "\<lfloor>x\<rfloor>"
  from True have m: "0 < ?m" by simp
  from bitlen_bounds [OF m]
  have lo: "2 ^ nat (bitlen ?m - 1) \<le> ?m" and hi: "?m < 2 ^ nat (bitlen ?m)" by simp_all
  from m have bl: "0 < bitlen ?m"
    using bitlen_nonneg [of ?m] bitlen_eq_zero_iff [of ?m] by linarith
  have "(2::rat) powi (bitlen ?m - 1) = of_int (2 ^ nat (bitlen ?m - 1))"
    using bl by (simp add: power_int_nonneg_exp)
  also have "\<dots> \<le> of_int ?m" using lo by (simp only: of_int_le_iff)
  also have "\<dots> \<le> x" by simp
  finally have 1: "(2::rat) powi (bitlen ?m - 1) \<le> x" .
  from hi have "?m + 1 \<le> 2 ^ nat (bitlen ?m)" by simp
  then have "(of_int (?m + 1) :: rat) \<le> of_int (2 ^ nat (bitlen ?m))" by (simp only: of_int_le_iff)
  moreover have "x < of_int (?m + 1)" by linarith
  ultimately have "x < of_int (2 ^ nat (bitlen ?m))" by linarith
  also have "\<dots> = (2::rat) powi (bitlen ?m)" using bl by (simp add: power_int_nonneg_exp)
  finally have 2: "x < (2::rat) powi (bitlen ?m)" .
  from True 1 2 show ?thesis by (simp add: binary_exponent_def)
next
  case False
  let ?y = "1 / x"
  let ?k = "\<lceil>?y\<rceil> - 1"
  from False assms have y1: "1 < ?y" by simp
  then have k: "0 < ?k" by linarith
  have ky: "of_int ?k < ?y" "?y \<le> of_int ?k + 1" by linarith+
  from bitlen_bounds [OF k]
  have lo: "2 ^ nat (bitlen ?k - 1) \<le> ?k" and hi: "?k < 2 ^ nat (bitlen ?k)" by simp_all
  from k have bl: "0 < bitlen ?k"
    using bitlen_nonneg [of ?k] bitlen_eq_zero_iff [of ?k] by linarith
  from hi have "?k + 1 \<le> 2 ^ nat (bitlen ?k)" by simp
  then have c: "(of_int (?k + 1) :: rat) \<le> of_int (2 ^ nat (bitlen ?k))"
    by (simp only: of_int_le_iff)
  have "?y \<le> of_int (?k + 1)" by linarith
  also note c
  also have "(of_int (2 ^ nat (bitlen ?k)) :: rat) = (2::rat) powi (bitlen ?k)"
    using bl by (simp add: power_int_nonneg_exp)
  finally have yle: "?y \<le> (2::rat) powi (bitlen ?k)" .
  have p: "0 < (2::rat) powi (bitlen ?k)" by simp
  from yle assms p have "1 \<le> x * (2::rat) powi (bitlen ?k)"
    by (simp add: field_simps)
  then have 1: "(2::rat) powi (- bitlen ?k) \<le> x"
    using p by (simp add: power_int_minus field_simps)
  have "(2::rat) powi (bitlen ?k - 1) = of_int (2 ^ nat (bitlen ?k - 1))"
    using bl by (simp add: power_int_nonneg_exp)
  also have "\<dots> \<le> of_int ?k" using lo by (simp only: of_int_le_iff)
  also have "\<dots> < ?y" by (rule ky(1))
  finally have ylt: "(2::rat) powi (bitlen ?k - 1) < ?y" .
  have p': "0 < (2::rat) powi (bitlen ?k - 1)" by simp
  from ylt assms p' have "x * (2::rat) powi (bitlen ?k - 1) < 1"
    by (simp add: field_simps)
  then have "x < 1 / (2::rat) powi (bitlen ?k - 1)"
    using p' by (simp add: field_simps)
  also have "\<dots> = (2::rat) powi (- bitlen ?k + 1)"
    by (simp add: power_int_minus_divide [symmetric])
  finally have 2: "x < (2::rat) powi (- bitlen ?k + 1)" .
  from False 1 2 show ?thesis by (simp add: binary_exponent_def)
qed

lemma double_round_error: "\<bar>double_round x - x\<bar> \<le> \<bar>x\<bar> / 2 ^ 53"
proof (cases "x = 0")
  case True
  then show ?thesis by (simp add: double_round_def)
next
  case False
  let ?e = "binary_exponent \<bar>x\<bar>"
  let ?ulp = "(2::rat) powi (?e - 52)"
  from False have a: "0 < \<bar>x\<bar>" by simp
  from binary_exponent_bounds [OF a] have lo: "2 powi ?e \<le> \<bar>x\<bar>" by simp
  have up: "0 < ?ulp" by simp
  have d: "double_round x = of_int (round_half_even (x / ?ulp)) * ?ulp"
    using False by (simp add: double_round_def Let_def)
  have "double_round x - x = (of_int (round_half_even (x / ?ulp)) - x / ?ulp) * ?ulp"
    using up by (simp add: d field_simps)
  then have "\<bar>double_round x - x\<bar> = \<bar>of_int (round_half_even (x / ?ulp)) - x / ?ulp\<bar> * ?ulp"
    using up by (simp add: abs_mult)
  also have "\<dots> \<le> (1 / 2) * ?ulp"
    using round_half_even_error [of "x / ?ulp"] up by (intro mult_right_mono) simp_all
  also have "\<dots> = 2 powi ?e / 2 ^ 53"
  proof -
    have "?ulp = 2 powi ?e / 2 ^ 52" by (simp add: power_int_diff)
    then show ?thesis by simp
  qed
  also have "\<dots> \<le> \<bar>x\<bar> / 2 ^ 53" using lo by (intro divide_right_mono) simp_all
  finally show ?thesis .
qed

lemma double_round_of_int:
  assumes "\<bar>k\<bar> < 2 ^ 53"
  shows "double_round (of_int k) = of_int k"
proof (cases "k = 0")
  case True
  then show ?thesis by (simp add: double_round_def)
next
  case False
  let ?a = "\<bar>of_int k :: rat\<bar>"
  let ?e = "binary_exponent ?a"
  from False have a: "0 < ?a" by simp
  from binary_exponent_bounds [OF a] have lo: "2 powi ?e \<le> ?a" by simp
  have "?a = of_int \<bar>k\<bar>" by simp
  also have "\<dots> < of_int (2 ^ 53)" using assms by (simp only: of_int_less_iff)
  finally have "?a < 2 powi 53" by simp
  with lo have "(2::rat) powi ?e < 2 powi 53" by linarith
  then have "?e < 53" by (rule power_int_le_imp_less_exp [rotated]) simp_all
  then obtain d where d: "52 - ?e = int d" using nonneg_int_cases [of "52 - ?e"] by auto
  then have e: "?e - 52 = - int d" by simp
  have ulp: "(2::rat) powi (?e - 52) = 1 / 2 ^ d"
    unfolding e by (simp add: power_int_minus_divide)
  have "of_int k / (1 / 2 ^ d) = (of_int (k * 2 ^ d) :: rat)" by simp
  then have "round_half_even (of_int k / (1 / 2 ^ d)) = k * 2 ^ d"
    by (simp only: round_half_even_of_int)
  then show ?thesis using False by (simp add: double_round_def Let_def ulp)
qed

lemma exact_panning_closed:
  assumes "2 \<le> n"
  shows "exact_panning i n = (2 * of_nat i - (of_nat n - 1)) / (of_nat n + 1)"
proof -
  define M :: rat where "M = of_nat n - 1"
  define P :: rat where "P = of_nat n + 1"
  define I :: rat where "I = of_nat i"
  have M: "M \<noteq> 0" using assms by (simp add: M_def)
  have P: "P \<noteq> 0" unfolding P_def by (metis of_nat_Suc of_nat_0_neq add.commute)
  have "- 2 * (- M / P) / M = 2 / P" using M P by simp
  then have "- M / P + (- 2 * (- M / P) / M) * I = - M / P + (2 / P) * I" by (simp only:)
  also have "\<dots> = (2 * I - M) / P" using P by (simp add: field_simps)
  finally have "- M / P + (- 2 * (- M / P) / M) * I = (2 * I - M) / P" .
  then show ?thesis unfolding exact_panning_def Let_def M_def P_def I_def .
qed

lemma calculatePanning_error:
  assumes n2: "2 \<le> n" and nb: "n < 2 ^ 32" and i: "i < n"
  shows "\<bar>priv_calculatePanning i n - exact_panning i n\<bar> \<le> 14 / 2 ^ 53 \<and>
         \<bar>priv_calculatePanning i n\<bar> \<le> 1"
proof -
  define N :: rat where "N = of_nat n"
  define I :: rat where "I = of_nat i"
  define u :: rat where "u = 1 / 2 ^ 53"
  have u0: "0 < u" and u1: "u \<le> 1 / 16" and u32: "u * 2 ^ 32 \<le> 1 / 7"
    by (simp_all add: u_def)
  have N2: "2 \<le> N" using n2 by (simp add: N_def)
  have "n + 1 \<le> 2 ^ 32" using nb by simp
  then have "(of_nat (n + 1) :: rat) \<le> of_nat (2 ^ 32)" by (simp only: of_nat_le_iff)
  then have Nb: "N + 1 \<le> 2 ^ 32" by (simp add: N_def)
  have I0: "0 \<le> I" by (simp add: I_def)
  have "i + 1 \<le> n" using i by simp
  then have "(of_nat (i + 1) :: rat) \<le> of_nat n" by (simp only: of_nat_le_iff)
  then have IN: "I \<le> N - 1" by (simp add: I_def N_def)
  have M0: "0 < N - 1" and P0: "0 < N + 1" using N2 by simp_all

  have "N - 1 = of_int (int n - 1)" by (simp add: N_def)
  moreover have "\<bar>int n - 1\<bar> < 2 ^ 53" using nb by simp
  ultimately have sub: "double_sub N 1 = N - 1"
    by (simp add: double_sub_def double_round_of_int del: of_int_diff)
  have "N + 1 = of_int (int n + 1)" by (simp add: N_def)
  moreover have "\<bar>int n + 1\<bar> < 2 ^ 53" using nb by simp
  ultimately have add: "double_add N 1 = N + 1"
    by (simp add: double_add_def double_round_of_int del: of_int_add)

  define A where "A = (N - 1) / (N + 1)"
  have A0: "0 < A" using M0 P0 by (simp add: A_def)
  have A1: "A \<le> 1" using P0 by (simp add: A_def field_simps)
  have Aeq: "A = 1 - 2 / (N + 1)" using P0 by (simp add: A_def field_simps)
  have "14 * u * (N + 1) \<le> 14 * (u * 2 ^ 32)" using Nb u0 by simp
  also have "\<dots> \<le> 2" using u32 by simp
  finally have "14 * u \<le> 2 / (N + 1)" using P0 by (simp add: field_simps)
  with Aeq have Au: "A + 14 * u \<le> 1" by simp

  define p where "p = double_round (- (N - 1) / (N + 1))"
  have "\<bar>p - (- (N - 1) / (N + 1))\<bar> \<le> \<bar>- (N - 1) / (N + 1)\<bar> / 2 ^ 53"
    unfolding p_def by (rule double_round_error)
  moreover have "- (N - 1) / (N + 1) = - A" by (simp only: A_def minus_divide_left)
  ultimately have "\<bar>p - (- A)\<bar> \<le> \<bar>- A\<bar> / 2 ^ 53" by (simp only:)
  then have "\<bar>p + A\<bar> \<le> A * u" using A0 by (simp add: u_def)
  also have "\<dots> \<le> u" using A1 u0 by simp
  finally have e1: "\<bar>p + A\<bar> \<le> u" .
  then have pb: "\<bar>p\<bar> \<le> 1 + u" using A0 A1 by linarith

  define q where "q = double_round (- 2 * p)"
  have "\<bar>q - (- 2 * p)\<bar> \<le> \<bar>- 2 * p\<bar> / 2 ^ 53"
    unfolding q_def by (rule double_round_error)
  then have "\<bar>q + 2 * p\<bar> \<le> (2 * \<bar>p\<bar>) * u" by (simp add: u_def abs_mult)
  also have "\<dots> \<le> (2 * (1 + u)) * u" using pb u0 by (intro mult_right_mono) simp_all
  also have "\<dots> \<le> 3 * u" using u0 u1 by (intro mult_right_mono) simp_all
  finally have e2: "\<bar>q + 2 * p\<bar> \<le> 3 * u" .
  from e1 e2 have qA: "\<bar>q - 2 * A\<bar> \<le> 5 * u" by linarith
  then have qb: "\<bar>q\<bar> \<le> 3" using A0 A1 u1 by linarith

  define K where "K = N - 1"
  have K0: "0 < K" using M0 by (simp add: K_def)
  have IK: "I \<le> K" using IN by (simp add: K_def)
  define d where "d = double_round (q / K)"
  have "\<bar>d - q / K\<bar> \<le> \<bar>q / K\<bar> / 2 ^ 53"
    unfolding d_def by (rule double_round_error)
  moreover have "\<bar>q / K\<bar> / 2 ^ 53 = (\<bar>q\<bar> * u) / K" using K0 by (simp add: u_def)
  ultimately have "\<bar>d - q / K\<bar> \<le> (\<bar>q\<bar> * u) / K" by (simp only:)
  also have "\<dots> \<le> (3 * u) / K"
    using qb u0 K0 by (intro divide_right_mono mult_right_mono) simp_all
  finally have e3: "\<bar>d - q / K\<bar> \<le> (3 * u) / K" .
  define D where "D = d - 2 * A / K"
  have "D = (d - q / K) + (q - 2 * A) / K"
    by (simp add: D_def diff_divide_distrib)
  then have "\<bar>D\<bar> \<le> \<bar>d - q / K\<bar> + \<bar>(q - 2 * A) / K\<bar>"
    by (simp only: abs_triangle_ineq)
  also have "\<bar>(q - 2 * A) / K\<bar> = \<bar>q - 2 * A\<bar> / K" using K0 by simp
  also have "\<bar>d - q / K\<bar> + \<bar>q - 2 * A\<bar> / K \<le> (3 * u) / K + (5 * u) / K"
    using e3 qA K0 by (intro add_mono divide_right_mono) simp_all
  also have "\<dots> = (8 * u) / K" by (simp add: add_divide_distrib [symmetric])
  finally have Db: "\<bar>D\<bar> \<le> (8 * u) / K" .

  define T where "T = 2 * A * I / K"
  have T0: "0 \<le> T" using A0 I0 K0 by (simp add: T_def)
  have "T \<le> 2 * A * K / K"
    unfolding T_def using A0 IK K0 by (intro divide_right_mono mult_left_mono) simp_all
  then have T2: "T \<le> 2 * A" using K0 by simp
  have "d = 2 * A / K + D" by (simp add: D_def)
  then have "d * I = (2 * A / K) * I + D * I" by (simp only: distrib_right)
  then have dI: "d * I = T + D * I" by (simp add: T_def)
  have "\<bar>D * I\<bar> = \<bar>D\<bar> * I" using I0 by (simp add: abs_mult)
  also have "\<dots> \<le> ((8 * u) / K) * K"
    using Db IK I0 by (intro mult_mono) simp_all
  also have "\<dots> = 8 * u" using K0 by simp
  finally have DI: "\<bar>D * I\<bar> \<le> 8 * u" .
  from dI DI T0 T2 A1 u1 have dIb: "\<bar>d * I\<bar> \<le> 3" by linarith

  define m where "m = double_round (d * I)"
  have "\<bar>m - d * I\<bar> \<le> \<bar>d * I\<bar> / 2 ^ 53"
    unfolding m_def by (rule double_round_error)
  then have "\<bar>m - d * I\<bar> \<le> \<bar>d * I\<bar> * u" by (simp add: u_def)
  also have "\<dots> \<le> 3 * u" using dIb u0 by (intro mult_right_mono) simp_all
  finally have e4: "\<bar>m - d * I\<bar> \<le> 3 * u" .
  from e4 dI DI have mT: "\<bar>m - T\<bar> \<le> 11 * u" by linarith

  define v where "v = - A + T"
  from e1 mT have pm: "\<bar>(p + m) - v\<bar> \<le> 12 * u" unfolding v_def by linarith
  have vb: "\<bar>v\<bar> \<le> A" unfolding v_def using T0 T2 by linarith
  from pm vb A1 u1 have pmb: "\<bar>p + m\<bar> \<le> 2" by linarith

  define r where "r = double_round (p + m)"
  have "\<bar>r - (p + m)\<bar> \<le> \<bar>p + m\<bar> / 2 ^ 53"
    unfolding r_def by (rule double_round_error)
  then have "\<bar>r - (p + m)\<bar> \<le> \<bar>p + m\<bar> * u" by (simp add: u_def)
  also have "\<dots> \<le> 2 * u" using pmb u0 by (intro mult_right_mono) simp_all
  finally have e5: "\<bar>r - (p + m)\<bar> \<le> 2 * u" .
  from e5 pm have rv: "\<bar>r - v\<bar> \<le> 14 * u" by linarith
  from rv vb Au have rb: "\<bar>r\<bar> \<le> 1" by linarith

  have n1: "n \<noteq> 1" using n2 by simp
  have code: "priv_calculatePanning i n = r"
    using n1 sub add
    by (simp add: priv_calculatePanning_def Let_def r_def m_def d_def q_def p_def K_def
        double_div_def double_mul_def double_add_def N_def I_def)
  have "exact_panning i n = (2 * I - (N - 1)) / (N + 1)"
    using exact_panning_closed [OF n2, of i] by (simp add: N_def I_def)
  also have "\<dots> = v"
  proof -
    have "v = - (K / (N + 1)) + 2 * (K / (N + 1)) * I / K" by (simp add: v_def T_def A_def K_def)
    also have "\<dots> = - (K / (N + 1)) + 2 * I / (N + 1)" using K0 by simp
    also have "\<dots> = (2 * I - K) / (N + 1)" by (simp add: diff_divide_distrib)
    finally show ?thesis by (simp add: K_def)
  qed
  finally have spec: "exact_panning i n = v" .
  from rv rb show ?thesis by (simp add: code spec u_def)
qed

subsection \<open>Sorting the participants by panning\<close>

lemma assignPanning_length [simp]: "length (assignPanning xs n) = length xs"
  by (simp add: assignPanning_def)

lemma assignPanning_nth:
  "i < length xs \<Longrightarrow> assignPanning xs n ! i = (xs ! i)\<lparr>panning := priv_calculatePanning i n\<rparr>"
  by (simp add: assignPanning_def nth_enumerate_eq)

lemma assignPanning_hashes:
  "map (\<lambda>p. joaatHash (p_user p)) (assignPanning xs n) = map (\<lambda>p. joaatHash (p_user p)) xs"
  by (rule nth_equalityI) (simp_all add: assignPanning_nth)

lemma calculatePanning_unfold:
  "n \<noteq> 1 \<Longrightarrow>
   priv_calculatePanning i n =
     double_add (double_div (- double_sub (of_nat n) 1) (double_add (of_nat n) 1))
       (double_mul
          (double_div (double_mul (- 2) (double_div (- double_sub (of_nat n) 1) (double_add (of_nat n) 1)))
             (double_sub (of_nat n) 1))
          (of_nat i))"
  by (simp add: priv_calculatePanning_def Let_def)

lemma deleteParticipant_participants:
  assumes "getParticipantById_from 0 (participants c) userId = Inr (i, p)"
  shows "participants (snd (deleteParticipant c userId None reason)) =
           take i (participants c) @ drop (Suc i) (participants c)"
  using assms
  by (simp add: deleteParticipant_def getParticipantById_def Let_def
      split: option.splits TERMINATION_REASON.splits)

lemma calculatePanning_2:
  "priv_calculatePanning 0 2 = - (6004799503160661 / 18014398509481984)"
  "priv_calculatePanning (Suc 0) 2 = 6004799503160661 / 18014398509481984"
  by code_simp+

lemma calculatePanning_4:
  "priv_calculatePanning (Suc 0) 4 = - (3602879701896397 / 18014398509481984)"
  "priv_calculatePanning 2 4 = 900719925474099 / 4503599627370496"
  by code_simp+

lemma sorted_example_call_two:
  "participants (priv_sortParticipantsByPanning example_call_two) =
     [(new_ParticipantEntity bob)\<lparr>panning := priv_calculatePanning 0 2\<rparr>,
      (new_ParticipantEntity alice)\<lparr>panning := priv_calculatePanning 1 2\<rparr>]"
  by (simp add: priv_sortParticipantsByPanning_def example_call_two_def assignPanning_def
      new_ParticipantEntity_def alice_def bob_def Let_def numeral_2_eq_2)

text \<open>
  Claim C5. With two or more participants, \<open>_sortParticipantsByPanning\<close> orders the
  participants by the hash of their user and gives the participant at position \<open>i\<close> of
  the \<open>n\<close> sorted participants the panning \<open>position + delta * i\<close>, computed in
  doubles, with \<open>position = -(n - 1) / (n + 1)\<close> and
  \<open>delta = -2 * position / (n - 1)\<close>. With fewer than two participants it assigns
  nothing, so the call is as before and a participant keeps the panning it had.
  \<open>_calculatePanning\<close> returns exactly 0 for a single participant.
\<close>

theorem sortParticipantsByPanning_assigns:
  "(2 \<le> length (participants c) \<longrightarrow>
      length (participants (priv_sortParticipantsByPanning c)) = length (participants c) \<and>
      sorted (map (\<lambda>p. joaatHash (p_user p)) (participants (priv_sortParticipantsByPanning c))) \<and>
      (\<forall>i<length (participants c).
         participants (priv_sortParticipantsByPanning c) ! i =
           (sort_key (\<lambda>p. joaatHash (p_user p)) (participants c) ! i)
             \<lparr>panning :=
                double_add
                  (double_div (- double_sub (of_nat (length (participants c))) 1)
                     (double_add (of_nat (length (participants c))) 1))
                  (double_mul
                     (double_div
                        (double_mul (- 2)
                           (double_div (- double_sub (of_nat (length (participants c))) 1)
                              (double_add (of_nat (length (participants c))) 1)))
                        (double_sub (of_nat (length (participants c))) 1))
                     (of_nat i))\<rparr>)) \<and>
   (length (participants c) < 2 \<longrightarrow> priv_sortParticipantsByPanning c = c) \<and>
   priv_calculatePanning i 1 = 0"
proof (intro conjI impI)
  assume n: "2 \<le> length (participants c)"
  let ?ordered = "sort_key (\<lambda>p. joaatHash (p_user p)) (participants c)"
  have ps: "participants (priv_sortParticipantsByPanning c) =
              assignPanning ?ordered (length (participants c))"
    using n by (simp add: priv_sortParticipantsByPanning_def Let_def)
  show "length (participants (priv_sortParticipantsByPanning c)) = length (participants c)"
    by (simp add: ps)
  show "sorted (map (\<lambda>p. joaatHash (p_user p)) (participants (priv_sortParticipantsByPanning c)))"
    by (simp only: ps assignPanning_hashes sorted_sort_key)
  from n have n1: "length (participants c) \<noteq> 1" by simp
  show "\<forall>i<length (participants c).
         participants (priv_sortParticipantsByPanning c) ! i =
           (?ordered ! i)
             \<lparr>panning :=
                double_add
                  (double_div (- double_sub (of_nat (length (participants c))) 1)
                     (double_add (of_nat (length (participants c))) 1))
                  (double_mul
                     (double_div
                        (double_mul (- 2)
                           (double_div (- double_sub (of_nat (length (participants c))) 1)
                              (double_add (of_nat (length (participants c))) 1)))
                        (double_sub (of_nat (length (participants c))) 1))
                     (of_nat i))\<rparr>"
    by (simp add: ps assignPanning_nth calculatePanning_unfold [OF n1])
next
  assume "length (participants c) < 2"
  then show "priv_sortParticipantsByPanning c = c"
    by (simp add: priv_sortParticipantsByPanning_def)
next
  show "priv_calculatePanning i 1 = 0" by (simp add: priv_calculatePanning_def)
qed

theorem sortParticipantsByPanning_assigns_witness:
  "2 \<le> length (participants example_call_two) \<and>
   map p_id (participants (priv_sortParticipantsByPanning example_call_two)) = [''bob'', ''alice''] \<and>
   map panning (participants (priv_sortParticipantsByPanning example_call_two)) =
     [- (6004799503160661 / 18014398509481984), 6004799503160661 / 18014398509481984] \<and>
   length (participants example_call) < 2 \<and>
   priv_sortParticipantsByPanning example_call = example_call"
proof -
  have two: "2 \<le> length (participants example_call_two)" by (simp add: example_call_two_def)
  have ps: "participants example_call_two = [new_ParticipantEntity alice, new_ParticipantEntity bob]"
    by (simp add: example_call_two_def)
  have ordered: "sort_key (\<lambda>p. joaatHash (p_user p)) (participants example_call_two) =
                   [new_ParticipantEntity bob, new_ParticipantEntity alice]"
    by (simp add: ps new_ParticipantEntity_def alice_def bob_def)
  have none: "length (participants example_call) < 2" by (simp add: example_call_def)
  note t = sortParticipantsByPanning_assigns [of example_call_two 0]
  from t two have len: "length (participants (priv_sortParticipantsByPanning example_call_two)) = 2"
    by (simp only: ps) simp
  have l2: "length (participants example_call_two) = 2" by (simp add: ps)
  have n1: "length (participants example_call_two) \<noteq> 1" by (simp add: ps)
  from t two have
    "\<forall>i<length (participants example_call_two).
       participants (priv_sortParticipantsByPanning example_call_two) ! i =
         (sort_key (\<lambda>p. joaatHash (p_user p)) (participants example_call_two) ! i)
           \<lparr>panning := priv_calculatePanning i (length (participants example_call_two))\<rparr>"
    unfolding calculatePanning_unfold [OF n1] by blast
  then have
    nth: "\<forall>i<2. participants (priv_sortParticipantsByPanning example_call_two) ! i =
           ([new_ParticipantEntity bob, new_ParticipantEntity alice] ! i)
             \<lparr>panning := priv_calculatePanning i 2\<rparr>"
    unfolding ordered l2 .
  from nth have n0: "participants (priv_sortParticipantsByPanning example_call_two) ! 0 =
                       (new_ParticipantEntity bob)\<lparr>panning := priv_calculatePanning 0 2\<rparr>"
    and n1: "participants (priv_sortParticipantsByPanning example_call_two) ! 1 =
                       (new_ParticipantEntity alice)\<lparr>panning := priv_calculatePanning 1 2\<rparr>"
    by simp_all
  have eq: "participants (priv_sortParticipantsByPanning example_call_two) =
              [(new_ParticipantEntity bob)\<lparr>panning := priv_calculatePanning 0 2\<rparr>,
               (new_ParticipantEntity alice)\<lparr>panning := priv_calculatePanning 1 2\<rparr>]"
    using len n0 n1 by (intro nth_equalityI) (auto simp: less_Suc_eq numeral_2_eq_2)
  from sortParticipantsByPanning_assigns [of example_call 0] none
  have same: "priv_sortParticipantsByPanning example_call = example_call" by blast
  from two none same show ?thesis
    by (simp add: eq calculatePanning_2 new_ParticipantEntity_def alice_def bob_def)
qed

text \<open>
  The panning of a single participant is not set to 0: of two participants, sorted and
  panned, one leaves; \<open>_sortParticipantsByPanning\<close> then leaves the other at the panning
  it had as the first of two.
\<close>

theorem single_participant_keeps_panning:
  "map p_id
     (participants
        (priv_sortParticipantsByPanning
           (snd (deleteParticipant (priv_sortParticipantsByPanning example_call_two)
                   (Some ''alice'') None (Some OTHER_USER))))) = [''bob''] \<and>
   map panning
     (participants
        (priv_sortParticipantsByPanning
           (snd (deleteParticipant (priv_sortParticipantsByPanning example_call_two)
                   (Some ''alice'') None (Some OTHER_USER))))) =
     [- (6004799503160661 / 18014398509481984)] \<and>
   panning
     (hd (participants
            (priv_sortParticipantsByPanning
               (snd (deleteParticipant (priv_sortParticipantsByPanning example_call_two)
                       (Some ''alice'') None (Some OTHER_USER)))))) \<noteq> 0"
proof -
  let ?c = "priv_sortParticipantsByPanning example_call_two"
  let ?bob = "(new_ParticipantEntity bob)\<lparr>panning := priv_calculatePanning 0 2\<rparr>"
  let ?alice = "(new_ParticipantEntity alice)\<lparr>panning := priv_calculatePanning 1 2\<rparr>"
  have found: "getParticipantById_from 0 (participants ?c) (Some ''alice'') = Inr (1, ?alice)"
    by (simp add: sorted_example_call_two new_ParticipantEntity_def alice_def bob_def)
  have left: "participants (snd (deleteParticipant ?c (Some ''alice'') None (Some OTHER_USER))) = [?bob]"
    by (simp add: deleteParticipant_participants [OF found] sorted_example_call_two)
  then have "length (participants (snd (deleteParticipant ?c (Some ''alice'') None (Some OTHER_USER)))) < 2"
    by simp
  then have "priv_sortParticipantsByPanning
               (snd (deleteParticipant ?c (Some ''alice'') None (Some OTHER_USER))) =
             snd (deleteParticipant ?c (Some ''alice'') None (Some OTHER_USER))"
    by (simp add: priv_sortParticipantsByPanning_def)
  with left show ?thesis
    by (simp add: calculatePanning_2 new_ParticipantEntity_def bob_def)
qed


subsection \<open>Range and symmetry of the panning\<close>

lemma exact_panning_symmetric:
  assumes "2 \<le> n" "i < n"
  shows "exact_panning (n - 1 - i) n = - exact_panning i n"
proof -
  from assms have "(of_nat (n - 1 - i) :: rat) = of_nat n - 1 - of_nat i"
    by (simp add: of_nat_diff)
  then have "(2 * of_nat (n - 1 - i) - (of_nat n - 1) :: rat) = - (2 * of_nat i - (of_nat n - 1))"
    by simp
  then show ?thesis
    by (simp only: exact_panning_closed [OF assms(1)] minus_divide_left)
qed

lemma exact_panning_step:
  assumes "2 \<le> n"
  shows "exact_panning (Suc i) n - exact_panning i n = 2 / (of_nat n + 1)"
proof -
  have "(2 * of_nat (Suc i) - (of_nat n - 1) :: rat) - (2 * of_nat i - (of_nat n - 1)) = 2"
    by simp
  then show ?thesis
    by (simp only: exact_panning_closed [OF assms] diff_divide_distrib [symmetric])
qed

text \<open>
  Claim C6. \<open>_calculatePanning\<close> returns exactly 0 for one participant. For
  \<open>2 \<le> n < 2^32\<close> participants and every index \<open>i < n\<close> the value lies in
  \<open>[-1, 1]\<close> and is within \<open>2^-49\<close> of \<open>(2i - (n - 1)) / (n + 1)\<close>, the value of the
  formula in exact arithmetic. So the values are symmetric about zero and evenly spaced
  up to rounding: the values at \<open>i\<close> and \<open>n - 1 - i\<close> add up to at most \<open>2^-48\<close> in
  absolute value, and adjacent values differ by \<open>2 / (n + 1)\<close> up to \<open>2^-48\<close>.
\<close>

theorem calculatePanning_symmetric_up_to_rounding:
  "priv_calculatePanning i 1 = 0 \<and>
   (2 \<le> n \<and> n < 2 ^ 32 \<and> i < n \<longrightarrow>
      \<bar>priv_calculatePanning i n\<bar> \<le> 1 \<and>
      \<bar>priv_calculatePanning i n - exact_panning i n\<bar> \<le> 1 / 2 ^ 49 \<and>
      exact_panning i n = (2 * of_nat i - (of_nat n - 1)) / (of_nat n + 1) \<and>
      \<bar>priv_calculatePanning (n - 1 - i) n + priv_calculatePanning i n\<bar> \<le> 1 / 2 ^ 48 \<and>
      (Suc i < n \<longrightarrow>
         \<bar>priv_calculatePanning (Suc i) n - priv_calculatePanning i n - 2 / (of_nat n + 1)\<bar>
           \<le> 1 / 2 ^ 48))"
proof (intro conjI impI)
  show "priv_calculatePanning i 1 = 0" by (simp add: priv_calculatePanning_def)
next
  assume a: "2 \<le> n \<and> n < 2 ^ 32 \<and> i < n"
  then have n2: "2 \<le> n" and nb: "n < 2 ^ 32" and i: "i < n" by simp_all
  have c: "(14::rat) / 2 ^ 53 \<le> 1 / 2 ^ 49" by simp
  from calculatePanning_error [OF n2 nb i]
  have e: "\<bar>priv_calculatePanning i n - exact_panning i n\<bar> \<le> 14 / 2 ^ 53"
    and b: "\<bar>priv_calculatePanning i n\<bar> \<le> 1" by simp_all
  show "\<bar>priv_calculatePanning i n\<bar> \<le> 1" by (rule b)
  show e49: "\<bar>priv_calculatePanning i n - exact_panning i n\<bar> \<le> 1 / 2 ^ 49"
    using e c by linarith
  show "exact_panning i n = (2 * of_nat i - (of_nat n - 1)) / (of_nat n + 1)"
    by (rule exact_panning_closed [OF n2])
  have h: "(1::rat) / 2 ^ 49 + 1 / 2 ^ 49 = 1 / 2 ^ 48" by simp
  have j: "n - 1 - i < n" using n2 by simp
  from calculatePanning_error [OF n2 nb j] c
  have e': "\<bar>priv_calculatePanning (n - 1 - i) n - exact_panning (n - 1 - i) n\<bar> \<le> 1 / 2 ^ 49"
    by linarith
  from e49 e' exact_panning_symmetric [OF n2 i] h
  show "\<bar>priv_calculatePanning (n - 1 - i) n + priv_calculatePanning i n\<bar> \<le> 1 / 2 ^ 48"
    by linarith
  {
    assume s: "Suc i < n"
    from calculatePanning_error [OF n2 nb s] c
    have e'': "\<bar>priv_calculatePanning (Suc i) n - exact_panning (Suc i) n\<bar> \<le> 1 / 2 ^ 49"
      by linarith
    from e49 e'' exact_panning_step [OF n2, of i] h
    show "\<bar>priv_calculatePanning (Suc i) n - priv_calculatePanning i n - 2 / (of_nat n + 1)\<bar>
           \<le> 1 / 2 ^ 48"
      by linarith
  }
qed

theorem calculatePanning_symmetric_up_to_rounding_witness:
  "(2::nat) \<le> 4 \<and> (4::nat) < 2 ^ 32 \<and> (1::nat) < 4 \<and> Suc 1 < (4::nat) \<and>
   \<bar>priv_calculatePanning 1 4\<bar> \<le> 1 \<and>
   \<bar>priv_calculatePanning 1 4 - exact_panning 1 4\<bar> \<le> 1 / 2 ^ 49 \<and>
   exact_panning 1 4 = - (1 / 5) \<and>
   \<bar>priv_calculatePanning 2 4 + priv_calculatePanning 1 4\<bar> \<le> 1 / 2 ^ 48 \<and>
   \<bar>priv_calculatePanning 2 4 - priv_calculatePanning 1 4 - 2 / 5\<bar> \<le> 1 / 2 ^ 48"
proof -
  have h: "(2::nat) \<le> 4 \<and> (4::nat) < 2 ^ 32 \<and> (1::nat) < 4" by simp
  have s: "Suc 1 < (4::nat)" by simp
  have k: "(4::nat) - 1 - 1 = 2" "Suc 1 = 2" by simp_all
  note t = calculatePanning_symmetric_up_to_rounding [of 1 4]
  from t h have 1: "\<bar>priv_calculatePanning 1 4\<bar> \<le> 1" by blast
  from t h have 2: "\<bar>priv_calculatePanning 1 4 - exact_panning 1 4\<bar> \<le> 1 / 2 ^ 49" by blast
  from t h have "exact_panning 1 4 = (2 * of_nat 1 - (of_nat 4 - 1)) / (of_nat 4 + 1)" by blast
  also have "\<dots> = - (1 / 5)" by simp
  finally have 3: "exact_panning 1 4 = - (1 / 5)" .
  from t h have "\<bar>priv_calculatePanning (4 - 1 - 1) 4 + priv_calculatePanning 1 4\<bar> \<le> 1 / 2 ^ 48"
    by blast
  then have 4: "\<bar>priv_calculatePanning 2 4 + priv_calculatePanning 1 4\<bar> \<le> 1 / 2 ^ 48"
    unfolding k .
  from t h s
  have "\<bar>priv_calculatePanning (Suc 1) 4 - priv_calculatePanning 1 4 - 2 / (of_nat 4 + 1)\<bar>
          \<le> 1 / 2 ^ 48" by blast
  moreover have "(2::rat) / (of_nat 4 + 1) = 2 / 5" by simp
  ultimately have 5: "\<bar>priv_calculatePanning 2 4 - priv_calculatePanning 1 4 - 2 / 5\<bar> \<le> 1 / 2 ^ 48"
    unfolding k by (simp only:)
  from h s 1 2 3 4 5 show ?thesis by blast
qed

text \<open>
  The doubles themselves are not symmetric: of four values, the second is \<open>-0.2\<close> and
  the third is \<open>0.19999999999999996\<close>.
\<close>

theorem calculatePanning_not_symmetric:
  "priv_calculatePanning 1 4 = - (3602879701896397 / 18014398509481984) \<and>
   priv_calculatePanning 2 4 = 900719925474099 / 4503599627370496 \<and>
   priv_calculatePanning 2 4 \<noteq> - priv_calculatePanning 1 4"
  by (simp add: calculatePanning_4)


end
